theory Spec2Isabelle
  imports Main "HOL-Library.Word" "HOL-Library.AList"
begin

section \<open>The DynamoDB store of valkeyrie: data model\<close>

text \<open>
  The development embeds \<^verbatim>\<open>src/dynamodb.go\<close>. The store talks to DynamoDB through the
  interface \<^verbatim>\<open>dynamodbiface.DynamoDBAPI\<close>; the part of that service the store uses
  (GetItem, UpdateItem, DeleteItem, Scan, BatchWriteItem on one table, with the
  expressions the store builds) is modelled below as functions on a \<open>world\<close> record
  that also holds the wall clock and a trace of the requests issued.
\<close>

subsection \<open>Constants of the package\<close>

definition Second :: int where
  "Second = 1000000000"

definition DeleteTreeTimeoutSeconds :: int where
  "DeleteTreeTimeoutSeconds = 30"

definition partitionKey :: string where
  "partitionKey = ''id''"

definition revisionAttribute :: string where
  "revisionAttribute = ''version''"

definition encodedValueAttribute :: string where
  "encodedValueAttribute = ''encoded_value''"

definition ttlAttribute :: string where
  "ttlAttribute = ''expiration_time''"

definition defaultLockTTL :: int where
  "defaultLockTTL = 20 * Second"

definition dynamodbDefaultTimeout :: int where
  "dynamodbDefaultTimeout = 10 * Second"

definition ErrCodeConditionalCheckFailedException :: string where
  "ErrCodeConditionalCheckFailedException = ''ConditionalCheckFailedException''"

definition ErrCodeValidationException :: string where
  "ErrCodeValidationException = ''ValidationException''"

definition ReturnValueAllNew :: string where
  "ReturnValueAllNew = ''ALL_NEW''"

subsection \<open>Errors\<close>

text \<open>
  The sentinel errors of \<^verbatim>\<open>valkeyrie/store\<close> and of this package, an
  \<^verbatim>\<open>awserr.Error\<close> with its code, any other error value a backend call may return,
  and the two standard-library errors \<^verbatim>\<open>decodeItem\<close> can produce.
\<close>

datatype error =
    ErrKeyNotFound
  | ErrKeyExists
  | ErrKeyModified
  | ErrDeleteTreeTimeout
  | ErrLockAcquireCancelled
  | AwsError string
  | BackendError string
  | NumError
  | CorruptInputError

subsection \<open>Items, pairs and options\<close>

text \<open>
  A \<^verbatim>\<open>dynamodb.AttributeValue\<close> as the store uses it: a string (field S) or a number
  (field N). DynamoDB sends a number as its decimal text; the model keeps whole
  numbers as \<open>int\<close>, and \<open>ParseInt\<close> below gives what
  \<^verbatim>\<open>strconv.ParseInt(aws.StringValue(v.N), 10, 64)\<close> returns for it.
\<close>

datatype AttributeValue = AttrS string | AttrN int

type_synonym item = "string \<rightharpoonup> AttributeValue"

type_synonym bytes = "8 word list"

record KVPair =
  Key :: string
  Value :: bytes
  LastIndex :: "64 word"

record ReadOptions =
  Consistent :: bool

record WriteOptions =
  TTL :: int

text \<open>
  \<^verbatim>\<open>aws.StringValue(v.S)\<close>: the empty string when the field is nil.
\<close>

fun StringValue_S :: "AttributeValue \<Rightarrow> string" where
  "StringValue_S (AttrS s) = s"
| "StringValue_S (AttrN n) = []"

text \<open>
  \<^verbatim>\<open>strconv.ParseInt(aws.StringValue(v.N), 10, 64)\<close>: the value and the error. A nil N
  field reads as the empty string, a syntax error with value 0; a number outside
  the signed 64-bit range is a range error with the nearest bound as value.
\<close>

fun ParseInt :: "AttributeValue \<Rightarrow> int \<times> error option" where
  "ParseInt (AttrS s) = (0, Some NumError)"
| "ParseInt (AttrN n) =
     (if n < - (2 ^ 63) then (- (2 ^ 63), Some NumError)
      else if 2 ^ 63 \<le> n then (2 ^ 63 - 1, Some NumError)
      else (n, None))"

subsection \<open>Standard base64\<close>

definition encodeStd :: string where
  "encodeStd = ''ABCDEFGHIJKLMNOPQRSTUVWXYZabcdefghijklmnopqrstuvwxyz0123456789+/''"

definition enc64 :: "nat \<Rightarrow> char" where
  "enc64 n = encodeStd ! (n mod 64)"

fun EncodeToString :: "bytes \<Rightarrow> string" where
  "EncodeToString [] = []"
| "EncodeToString [a] =
     [enc64 (unat a div 4), enc64 ((unat a mod 4) * 16), CHR ''='', CHR ''='']"
| "EncodeToString [a, b] =
     [enc64 (unat a div 4), enc64 ((unat a mod 4) * 16 + unat b div 16),
      enc64 ((unat b mod 16) * 4), CHR ''='']"
| "EncodeToString (a # b # c # rest) =
     [enc64 (unat a div 4), enc64 ((unat a mod 4) * 16 + unat b div 16),
      enc64 ((unat b mod 16) * 4 + unat c div 64), enc64 (unat c mod 64)]
     @ EncodeToString rest"

definition dec64 :: "char \<Rightarrow> nat option" where
  "dec64 c = map_of (zip encodeStd [0..<64]) c"

text \<open>
  One pass over groups of four characters: padding is accepted only in the last
  group, and nothing may follow it.
\<close>

fun decodeQuanta :: "string \<Rightarrow> error + bytes" where
  "decodeQuanta [] = Inr []"
| "decodeQuanta (a # b # c # d # rest) =
     (case (dec64 a, dec64 b) of
        (Some x, Some y) \<Rightarrow>
          (if c = CHR ''='' then
             (if d = CHR ''='' \<and> rest = [] then Inr [of_nat (x * 4 + y div 16)]
              else Inl CorruptInputError)
           else
             (case dec64 c of
                None \<Rightarrow> Inl CorruptInputError
              | Some z \<Rightarrow>
                  (if d = CHR ''='' then
                     (if rest = [] then
                        Inr [of_nat (x * 4 + y div 16), of_nat ((y mod 16) * 16 + z div 4)]
                      else Inl CorruptInputError)
                   else
                     (case dec64 d of
                        None \<Rightarrow> Inl CorruptInputError
                      | Some u \<Rightarrow>
                          (case decodeQuanta rest of
                             Inl e \<Rightarrow> Inl e
                           | Inr bs \<Rightarrow>
                               Inr (of_nat (x * 4 + y div 16)
                                    # of_nat ((y mod 16) * 16 + z div 4)
                                    # of_nat ((z mod 4) * 64 + u) # bs))))))
      | _ \<Rightarrow> Inl CorruptInputError)"
| "decodeQuanta _ = Inl CorruptInputError"

text \<open>Carriage returns and line feeds are skipped by the decoder.\<close>

definition DecodeString :: "string \<Rightarrow> error + bytes" where
  "DecodeString s = decodeQuanta (filter (\<lambda>c. c \<noteq> CHR 0x0A \<and> c \<noteq> CHR 0x0D) s)"

subsection \<open>Expiration and decoding of a stored item\<close>

text \<open>
  \<^verbatim>\<open>isItemExpired\<close>: the clock \<open>now\<close> is in nanoseconds since the epoch, the stored
  expiration in seconds; the parse error is dropped, as in the source.
\<close>

definition isItemExpired :: "item \<Rightarrow> int \<Rightarrow> bool" where
  "isItemExpired it now =
     (case it ttlAttribute of
        None \<Rightarrow> False
      | Some v \<Rightarrow> fst (ParseInt v) * Second < now)"

definition decodeItem :: "item \<Rightarrow> error + KVPair" where
  "decodeItem it =
     (let key = (case it partitionKey of Some v \<Rightarrow> StringValue_S v | None \<Rightarrow> []);
          rev = (case it revisionAttribute of Some v \<Rightarrow> ParseInt v | None \<Rightarrow> (0, None))
      in case snd rev of
           Some e \<Rightarrow> Inl e
         | None \<Rightarrow>
             (let encodedValue =
                    (case it encodedValueAttribute of Some v \<Rightarrow> StringValue_S v | None \<Rightarrow> [])
              in case DecodeString encodedValue of
                   Inl e \<Rightarrow> Inl e
                 | Inr rawValue \<Rightarrow>
                     Inr \<lparr>Key = key, Value = rawValue, LastIndex = word_of_int (fst rev)\<rparr>))"

section \<open>The backend: one DynamoDB table behind the service interface\<close>

subsection \<open>Expressions\<close>

text \<open>
  The store writes its condition, filter and update expressions as text with
  \<^verbatim>\<open>fmt.Sprintf\<close>; the model keeps the syntax tree of that text. An operand is an
  attribute name on the left and a placeholder of \<^verbatim>\<open>ExpressionAttributeValues\<close> on
  the right.
\<close>

datatype condition =
    Equals string string
  | GreaterThan string string
  | attribute_exists string
  | attribute_not_exists string
  | begins_with string string
  | And condition condition
  | Or condition condition

datatype update_action = ADD string string | SET string string

fun string_less :: "string \<Rightarrow> string \<Rightarrow> bool" where
  "string_less [] [] = False"
| "string_less [] (y # ys) = True"
| "string_less (x # xs) [] = False"
| "string_less (x # xs) (y # ys) =
     ((of_char x :: nat) < of_char y \<or> (x = y \<and> string_less xs ys))"

text \<open>
  Evaluation of a condition against the attributes of the stored item (no
  attributes at all when the key is absent). \<open>None\<close> is a request the service
  rejects before evaluating it: a placeholder that is not defined, or a
  \<^verbatim>\<open>begins_with\<close> whose operand is not a string.
\<close>

fun eval_condition :: "item \<Rightarrow> item \<Rightarrow> condition \<Rightarrow> bool option" where
  "eval_condition vals it (Equals a p) =
     (case vals p of None \<Rightarrow> None | Some v \<Rightarrow> Some (it a = Some v))"
| "eval_condition vals it (GreaterThan a p) =
     (case vals p of
        None \<Rightarrow> None
      | Some (AttrN y) \<Rightarrow> Some (case it a of Some (AttrN x) \<Rightarrow> y < x | _ \<Rightarrow> False)
      | Some (AttrS y) \<Rightarrow> Some (case it a of Some (AttrS x) \<Rightarrow> string_less y x | _ \<Rightarrow> False))"
| "eval_condition vals it (attribute_exists a) = Some (it a \<noteq> None)"
| "eval_condition vals it (attribute_not_exists a) = Some (it a = None)"
| "eval_condition vals it (begins_with a p) =
     (case vals p of
        Some (AttrS pre) \<Rightarrow>
          Some (case it a of Some (AttrS s) \<Rightarrow> take (length pre) s = pre | _ \<Rightarrow> False)
      | _ \<Rightarrow> None)"
| "eval_condition vals it (And c d) =
     (case (eval_condition vals it c, eval_condition vals it d) of
        (Some x, Some y) \<Rightarrow> Some (x \<and> y)
      | _ \<Rightarrow> None)"
| "eval_condition vals it (Or c d) =
     (case (eval_condition vals it c, eval_condition vals it d) of
        (Some x, Some y) \<Rightarrow> Some (x \<or> y)
      | _ \<Rightarrow> None)"

text \<open>
  One action of an update expression. \<^verbatim>\<open>ADD\<close> on a number adds, on a missing
  attribute starts from 0, and is rejected on a string.
\<close>

fun apply_action :: "item \<Rightarrow> update_action \<Rightarrow> item \<Rightarrow> item option" where
  "apply_action vals (ADD a p) it =
     (case vals p of
        Some (AttrN d) \<Rightarrow>
          (case it a of
             None \<Rightarrow> Some (it(a \<mapsto> AttrN d))
           | Some (AttrN x) \<Rightarrow> Some (it(a \<mapsto> AttrN (x + d)))
           | Some (AttrS s) \<Rightarrow> None)
      | _ \<Rightarrow> None)"
| "apply_action vals (SET a p) it =
     (case vals p of None \<Rightarrow> None | Some v \<Rightarrow> Some (it(a \<mapsto> v)))"

fun apply_actions :: "item \<Rightarrow> update_action list \<Rightarrow> item \<Rightarrow> item option" where
  "apply_actions vals [] it = Some it"
| "apply_actions vals (u # us) it =
     (case apply_action vals u it of
        None \<Rightarrow> None
      | Some it' \<Rightarrow> apply_actions vals us it')"

subsection \<open>Requests and responses\<close>

record GetItemInput =
  get_TableName :: string
  get_ConsistentRead :: "bool option"
  get_Key :: item

record GetItemOutput =
  Item :: "item option"

record UpdateItemInput =
  upd_TableName :: string
  upd_Key :: item
  upd_ExpressionAttributeValues :: item
  upd_UpdateExpression :: "update_action list"
  upd_ConditionExpression :: "condition option"
  upd_ReturnValues :: "string option"

record UpdateItemOutput =
  Attributes :: item

record DeleteItemInput =
  del_TableName :: string
  del_Key :: item
  del_ConditionExpression :: "condition option"
  del_ExpressionAttributeValues :: item

record ScanInput =
  scan_TableName :: string
  scan_FilterExpression :: "condition option"
  scan_ExpressionAttributeValues :: item
  scan_ConsistentRead :: "bool option"

record ScanOutput =
  Items :: "item list"

datatype WriteRequest = DeleteRequest item

record BatchWriteItemInput =
  RequestItems :: "(string \<times> WriteRequest list) list"

record BatchWriteItemOutput =
  UnprocessedItems :: "(string \<times> WriteRequest list) list"

text \<open>
  What the store does to the outside, in the order it does it: the requests it
  sends, and the timers it arms (\<^verbatim>\<open>time.NewTicker(d)\<close>, and \<^verbatim>\<open>time.Sleep(d)\<close> in the
  goroutine that feeds the timeout channel), with the duration in nanoseconds.
\<close>

datatype call =
    GetItemCall GetItemInput
  | UpdateItemCall UpdateItemInput
  | DeleteItemCall DeleteItemInput
  | ScanCall ScanInput
  | BatchWriteItemCall BatchWriteItemInput
  | NewTicker int
  | Sleep int

subsection \<open>The world\<close>

text \<open>
  \<open>tbl\<close> is the table as strongly consistent reads and all writes see it;
  \<open>replica\<close> is the copy a read without the consistent flag is served from (it may
  lag behind). \<open>clock\<close> is what \<^verbatim>\<open>time.Now()\<close> returns, in nanoseconds since the
  epoch. \<open>faults\<close> scripts the service: each call takes the head, and \<open>Some e\<close>
  makes that call return the error \<open>e\<close> without effect. \<open>leave\<close> scripts partial
  batch writes: each BatchWriteItem call takes the head, a predicate on keys
  that says which requests the service returns unprocessed. \<open>calls\<close> is the trace
  of the requests issued so far.
\<close>

record world =
  tbl :: "(string \<times> item) list"
  replica :: "(string \<times> item) list"
  clock :: int
  faults :: "error option list"
  leave :: "(string \<Rightarrow> bool) list"
  calls :: "call list"

definition next_fault :: "world \<Rightarrow> error option" where
  "next_fault w = (case faults w of [] \<Rightarrow> None | f # fs \<Rightarrow> f)"

definition issued :: "call \<Rightarrow> world \<Rightarrow> world" where
  "issued c w = w\<lparr>faults := tl (faults w), calls := calls w @ [c]\<rparr>"

definition issue :: "call \<Rightarrow> world \<Rightarrow> error option \<times> world" where
  "issue c w = (next_fault w, issued c w)"

definition key_of :: "item \<Rightarrow> string option" where
  "key_of k = (case k partitionKey of Some (AttrS s) \<Rightarrow> Some s | _ \<Rightarrow> None)"

definition GetItemWithContext :: "world \<Rightarrow> GetItemInput \<Rightarrow> (error + GetItemOutput) \<times> world" where
  "GetItemWithContext w inp =
     (case issue (GetItemCall inp) w of
        (Some e, w') \<Rightarrow> (Inl e, w')
      | (None, w') \<Rightarrow>
          (case key_of (get_Key inp) of
             None \<Rightarrow> (Inl (AwsError ErrCodeValidationException), w')
           | Some k \<Rightarrow>
               (Inr \<lparr>Item = map_of (if get_ConsistentRead inp = Some True then tbl w'
                                     else replica w') k\<rparr>, w')))"

definition UpdateItemWithContext :: "world \<Rightarrow> UpdateItemInput \<Rightarrow> (error + UpdateItemOutput) \<times> world" where
  "UpdateItemWithContext w inp =
     (case issue (UpdateItemCall inp) w of
        (Some e, w') \<Rightarrow> (Inl e, w')
      | (None, w') \<Rightarrow>
          (case key_of (upd_Key inp) of
             None \<Rightarrow> (Inl (AwsError ErrCodeValidationException), w')
           | Some k \<Rightarrow>
               (let stored = map_of (tbl w') k;
                    vals = upd_ExpressionAttributeValues inp;
                    holds = (case upd_ConditionExpression inp of
                               None \<Rightarrow> Some True
                             | Some c \<Rightarrow>
                                 eval_condition vals
                                   (case stored of None \<Rightarrow> Map.empty | Some it \<Rightarrow> it) c)
                in case holds of
                     None \<Rightarrow> (Inl (AwsError ErrCodeValidationException), w')
                   | Some False \<Rightarrow> (Inl (AwsError ErrCodeConditionalCheckFailedException), w')
                   | Some True \<Rightarrow>
                       (case apply_actions vals (upd_UpdateExpression inp)
                               (case stored of None \<Rightarrow> upd_Key inp | Some it \<Rightarrow> it) of
                          None \<Rightarrow> (Inl (AwsError ErrCodeValidationException), w')
                        | Some it' \<Rightarrow>
                            (Inr \<lparr>Attributes =
                                    (if upd_ReturnValues inp = Some ReturnValueAllNew then it'
                                     else Map.empty)\<rparr>,
                             w'\<lparr>tbl := AList.update k it' (tbl w')\<rparr>)))))"

definition DeleteItemWithContext :: "world \<Rightarrow> DeleteItemInput \<Rightarrow> error option \<times> world" where
  "DeleteItemWithContext w inp =
     (case issue (DeleteItemCall inp) w of
        (Some e, w') \<Rightarrow> (Some e, w')
      | (None, w') \<Rightarrow>
          (case key_of (del_Key inp) of
             None \<Rightarrow> (Some (AwsError ErrCodeValidationException), w')
           | Some k \<Rightarrow>
               (let stored = map_of (tbl w') k;
                    holds = (case del_ConditionExpression inp of
                               None \<Rightarrow> Some True
                             | Some c \<Rightarrow>
                                 eval_condition (del_ExpressionAttributeValues inp)
                                   (case stored of None \<Rightarrow> Map.empty | Some it \<Rightarrow> it) c)
                in case holds of
                     None \<Rightarrow> (Some (AwsError ErrCodeValidationException), w')
                   | Some False \<Rightarrow> (Some (AwsError ErrCodeConditionalCheckFailedException), w')
                   | Some True \<Rightarrow> (None, w'\<lparr>tbl := AList.delete k (tbl w')\<rparr>))))"

text \<open>
  A scan returns the items that pass the filter, in table order; a filter the
  service rejects fails the call. Paging is not modelled: the one page is the
  whole result.
\<close>

fun scan_items :: "item \<Rightarrow> condition option \<Rightarrow> item list \<Rightarrow> item list option" where
  "scan_items vals f [] = Some []"
| "scan_items vals f (it # its) =
     (case (case f of None \<Rightarrow> Some True | Some c \<Rightarrow> eval_condition vals it c) of
        None \<Rightarrow> None
      | Some keep \<Rightarrow>
          (case scan_items vals f its of
             None \<Rightarrow> None
           | Some r \<Rightarrow> Some (if keep then it # r else r)))"

definition ScanWithContext :: "world \<Rightarrow> ScanInput \<Rightarrow> (error + ScanOutput) \<times> world" where
  "ScanWithContext w inp =
     (case issue (ScanCall inp) w of
        (Some e, w') \<Rightarrow> (Inl e, w')
      | (None, w') \<Rightarrow>
          (case scan_items (scan_ExpressionAttributeValues inp) (scan_FilterExpression inp)
                  (map snd (if scan_ConsistentRead inp = Some True then tbl w' else replica w')) of
             None \<Rightarrow> (Inl (AwsError ErrCodeValidationException), w')
           | Some its \<Rightarrow> (Inr \<lparr>Items = its\<rparr>, w')))"

text \<open>
  A batch write deletes the requests it processes and returns the others, table
  by table; a table with nothing left unprocessed is not in the answer.
\<close>

fun request_key :: "WriteRequest \<Rightarrow> string option" where
  "request_key (DeleteRequest k) = key_of k"

definition unprocessed :: "(string \<Rightarrow> bool) \<Rightarrow> WriteRequest list \<Rightarrow> WriteRequest list" where
  "unprocessed lv rs = filter (\<lambda>r. case request_key r of None \<Rightarrow> False | Some k \<Rightarrow> lv k) rs"

definition processed_keys :: "(string \<Rightarrow> bool) \<Rightarrow> WriteRequest list \<Rightarrow> string list" where
  "processed_keys lv rs =
     concat (map (\<lambda>r. case request_key r of None \<Rightarrow> [] | Some k \<Rightarrow> if lv k then [] else [k]) rs)"

definition BatchWriteItemWithContext ::
  "world \<Rightarrow> BatchWriteItemInput \<Rightarrow> (error + BatchWriteItemOutput) \<times> world" where
  "BatchWriteItemWithContext w inp =
     (case issue (BatchWriteItemCall inp) w of
        (Some e, w') \<Rightarrow> (Inl e, w')
      | (None, w') \<Rightarrow>
          (if None \<in> set (map request_key (concat (map snd (RequestItems inp))))
           then (Inl (AwsError ErrCodeValidationException), w')
           else
             (let lv = (case leave w' of [] \<Rightarrow> (\<lambda>k. False) | p # ps \<Rightarrow> p);
                  rest = (case leave w' of [] \<Rightarrow> [] | p # ps \<Rightarrow> ps);
                  gone = processed_keys lv (concat (map snd (RequestItems inp)));
                  left = filter (\<lambda>(t, rs). rs \<noteq> [])
                           (map (\<lambda>(t, rs). (t, unprocessed lv rs)) (RequestItems inp))
              in (Inr \<lparr>UnprocessedItems = left\<rparr>,
                  w'\<lparr>tbl := fold AList.delete gone (tbl w'), leave := rest\<rparr>))))"

section \<open>The store\<close>

record Store =
  tableName :: string

subsection \<open>Put, Get, Delete, Exists\<close>

text \<open>
  The expression attribute values and the update expression that \<^verbatim>\<open>Put\<close> and
  \<^verbatim>\<open>AtomicPut\<close> build with the same lines: the revision is always incremented, the
  value is set when it is not empty, the expiration when a positive TTL is given.
\<close>

definition updateExpression :: "int \<Rightarrow> bytes \<Rightarrow> WriteOptions option \<Rightarrow> item \<times> update_action list" where
  "updateExpression now val opts =
     (let exAttr = ['':incr'' \<mapsto> AttrN 1];
          setList = [];
          (exAttr, setList) =
             (if length val > 0
              then (exAttr('':encv'' \<mapsto> AttrS (EncodeToString val)),
                    setList @ [SET encodedValueAttribute '':encv''])
              else (exAttr, setList));
          (exAttr, setList) =
             (case opts of
                None \<Rightarrow> (exAttr, setList)
              | Some given \<Rightarrow>
                  (if TTL given > 0
                   then (exAttr('':ttl'' \<mapsto> AttrN ((now + TTL given) div Second)),
                         setList @ [SET ttlAttribute '':ttl''])
                   else (exAttr, setList)))
      in (exAttr, ADD revisionAttribute '':incr'' # setList))"

definition Put_input :: "Store \<Rightarrow> int \<Rightarrow> string \<Rightarrow> bytes \<Rightarrow> WriteOptions option \<Rightarrow> UpdateItemInput" where
  "Put_input ddb now key val opts =
     (let (exAttr, updateExp) = updateExpression now val opts
      in \<lparr>upd_TableName = tableName ddb,
          upd_Key = [partitionKey \<mapsto> AttrS key],
          upd_ExpressionAttributeValues = exAttr,
          upd_UpdateExpression = updateExp,
          upd_ConditionExpression = None,
          upd_ReturnValues = None\<rparr>)"

definition Put :: "Store \<Rightarrow> world \<Rightarrow> string \<Rightarrow> bytes \<Rightarrow> WriteOptions option \<Rightarrow> error option \<times> world" where
  "Put ddb w key val opts =
     (case UpdateItemWithContext w (Put_input ddb (clock w) key val opts) of
        (Inl err, w') \<Rightarrow> (Some err, w')
      | (Inr res, w') \<Rightarrow> (None, w'))"

definition getKey :: "Store \<Rightarrow> world \<Rightarrow> string \<Rightarrow> ReadOptions \<Rightarrow> (error + GetItemOutput) \<times> world" where
  "getKey ddb w key options =
     GetItemWithContext w
       \<lparr>get_TableName = tableName ddb,
        get_ConsistentRead = Some (Consistent options),
        get_Key = [partitionKey \<mapsto> AttrS key]\<rparr>"

definition Get :: "Store \<Rightarrow> world \<Rightarrow> string \<Rightarrow> ReadOptions option \<Rightarrow> (error + KVPair) \<times> world" where
  "Get ddb w key opts =
     (let opts = (case opts of None \<Rightarrow> \<lparr>Consistent = True\<rparr> | Some given \<Rightarrow> given)
      in case getKey ddb w key opts of
           (Inl err, w') \<Rightarrow> (Inl err, w')
         | (Inr res, w') \<Rightarrow>
             (case Item res of
                None \<Rightarrow> (Inl ErrKeyNotFound, w')
              | Some it \<Rightarrow>
                  (if isItemExpired it (clock w') then (Inl ErrKeyNotFound, w')
                   else (decodeItem it, w'))))"

definition Delete :: "Store \<Rightarrow> world \<Rightarrow> string \<Rightarrow> error option \<times> world" where
  "Delete ddb w key =
     DeleteItemWithContext w
       \<lparr>del_TableName = tableName ddb,
        del_Key = [partitionKey \<mapsto> AttrS key],
        del_ConditionExpression = None,
        del_ExpressionAttributeValues = Map.empty\<rparr>"

definition Exists :: "Store \<Rightarrow> world \<Rightarrow> string \<Rightarrow> ReadOptions option \<Rightarrow> (bool \<times> error option) \<times> world" where
  "Exists ddb w key opts =
     (case GetItemWithContext w
             \<lparr>get_TableName = tableName ddb,
              get_ConsistentRead = None,
              get_Key = [partitionKey \<mapsto> AttrS key]\<rparr> of
        (Inl err, w') \<Rightarrow> ((False, Some err), w')
      | (Inr res, w') \<Rightarrow>
          (case Item res of
             None \<Rightarrow> ((False, None), w')
           | Some it \<Rightarrow>
               (if isItemExpired it (clock w') then ((False, None), w')
                else ((True, None), w'))))"

subsection \<open>List\<close>

fun List_loop :: "string \<Rightarrow> int \<Rightarrow> item list \<Rightarrow> KVPair list \<Rightarrow> error + KVPair list" where
  "List_loop directory now [] kvArray = Inr kvArray"
| "List_loop directory now (it # items) kvArray =
     (case decodeItem it of
        Inl err \<Rightarrow> Inl err
      | Inr v \<Rightarrow>
          (if Key v = directory then List_loop directory now items kvArray
           else if isItemExpired it now then List_loop directory now items kvArray
           else List_loop directory now items (kvArray @ [v])))"

definition List_ScanInput :: "Store \<Rightarrow> string \<Rightarrow> ReadOptions option \<Rightarrow> ScanInput" where
  "List_ScanInput ddb directory opts =
     (let opts = (case opts of None \<Rightarrow> \<lparr>Consistent = True\<rparr> | Some given \<Rightarrow> given)
      in \<lparr>scan_TableName = tableName ddb,
          scan_FilterExpression = Some (begins_with partitionKey '':namePrefix''),
          scan_ExpressionAttributeValues = ['':namePrefix'' \<mapsto> AttrS directory],
          scan_ConsistentRead = Some (Consistent opts)\<rparr>)"

definition List_directory ::
  "Store \<Rightarrow> world \<Rightarrow> string \<Rightarrow> ReadOptions option \<Rightarrow> (error + KVPair list) \<times> world" where
  "List_directory ddb w directory opts =
     (case ScanWithContext w (List_ScanInput ddb directory opts) of
        (Inl err, w') \<Rightarrow> (Inl err, w')
      | (Inr page, w') \<Rightarrow>
          (if length (Items page) = 0 then (Inl ErrKeyNotFound, w')
           else (List_loop directory (clock w') (Items page) [], w')))"

subsection \<open>AtomicPut and AtomicDelete\<close>

text \<open>
  Both operations make two backend calls, a consistent read and then the write.
  Other clients share the table, so anything may happen to the world between
  the two calls: \<open>env\<close> is that change. \<open>AtomicPut\<close> and \<open>AtomicDelete\<close> themselves are
  the runs in which nothing happens in between.
\<close>

definition lastRevisionCondition :: condition where
  "lastRevisionCondition =
     And (Equals revisionAttribute '':lastRevision'')
         (Or (attribute_not_exists ttlAttribute)
             (And (attribute_exists ttlAttribute) (GreaterThan ttlAttribute '':timeNow'')))"

text \<open>The request \<^verbatim>\<open>AtomicPut\<close> builds for its write, at clock reading \<open>now\<close>.\<close>

definition AtomicPut_input ::
  "Store \<Rightarrow> int \<Rightarrow> string \<Rightarrow> bytes \<Rightarrow> KVPair option \<Rightarrow> WriteOptions option \<Rightarrow> UpdateItemInput" where
  "AtomicPut_input ddb now key val previous opts =
     (let (exAttr, updateExp) = updateExpression now val opts;
          (exAttr, condExp) =
             (case previous of
                None \<Rightarrow> (exAttr, None)
              | Some p \<Rightarrow>
                  (exAttr('':lastRevision'' \<mapsto> AttrN (uint (LastIndex p)),
                          '':timeNow'' \<mapsto> AttrN (now div Second)),
                   Some lastRevisionCondition))
      in \<lparr>upd_TableName = tableName ddb,
          upd_Key = [partitionKey \<mapsto> AttrS key],
          upd_ExpressionAttributeValues = exAttr,
          upd_UpdateExpression = updateExp,
          upd_ConditionExpression = condExp,
          upd_ReturnValues = Some ReturnValueAllNew\<rparr>)"

definition AtomicPut_among ::
  "(world \<Rightarrow> world) \<Rightarrow> Store \<Rightarrow> world \<Rightarrow> string \<Rightarrow> bytes \<Rightarrow> KVPair option \<Rightarrow> WriteOptions option
     \<Rightarrow> (bool \<times> KVPair option \<times> error option) \<times> world" where
  "AtomicPut_among env ddb w key val previous opts =
     (case getKey ddb w key \<lparr>Consistent = True\<rparr> of
        (Inl err, w1) \<Rightarrow> ((False, None, Some err), w1)
      | (Inr getRes, w1) \<Rightarrow>
          (if previous = None \<and>
              (case Item getRes of None \<Rightarrow> False | Some it \<Rightarrow> \<not> isItemExpired it (clock w1))
           then ((False, None, Some ErrKeyExists), w1)
           else
             (let w2 = env w1
              in case UpdateItemWithContext w2
                        (AtomicPut_input ddb (clock w2) key val previous opts) of
                   (Inl err, w3) \<Rightarrow>
                     (case err of
                        AwsError code \<Rightarrow>
                          (if code = ErrCodeConditionalCheckFailedException
                           then ((False, None, Some ErrKeyModified), w3)
                           else ((False, None, Some err), w3))
                      | _ \<Rightarrow> ((False, None, Some err), w3))
                 | (Inr res, w3) \<Rightarrow>
                     (case decodeItem (Attributes res) of
                        Inl err \<Rightarrow> ((False, None, Some err), w3)
                      | Inr kv \<Rightarrow> ((True, Some kv, None), w3)))))"

definition AtomicPut ::
  "Store \<Rightarrow> world \<Rightarrow> string \<Rightarrow> bytes \<Rightarrow> KVPair option \<Rightarrow> WriteOptions option
     \<Rightarrow> (bool \<times> KVPair option \<times> error option) \<times> world" where
  "AtomicPut ddb w key val previous opts = AtomicPut_among (\<lambda>w. w) ddb w key val previous opts"

definition AtomicDelete_input :: "Store \<Rightarrow> string \<Rightarrow> KVPair option \<Rightarrow> DeleteItemInput" where
  "AtomicDelete_input ddb key previous =
     (let expAttr = (case previous of
                       None \<Rightarrow> Map.empty
                     | Some p \<Rightarrow> ['':lastRevision'' \<mapsto> AttrN (uint (LastIndex p))])
      in \<lparr>del_TableName = tableName ddb,
          del_Key = [partitionKey \<mapsto> AttrS key],
          del_ConditionExpression = Some (Equals revisionAttribute '':lastRevision''),
          del_ExpressionAttributeValues = expAttr\<rparr>)"

definition AtomicDelete_among ::
  "(world \<Rightarrow> world) \<Rightarrow> Store \<Rightarrow> world \<Rightarrow> string \<Rightarrow> KVPair option \<Rightarrow> (bool \<times> error option) \<times> world" where
  "AtomicDelete_among env ddb w key previous =
     (case getKey ddb w key \<lparr>Consistent = True\<rparr> of
        (Inl err, w1) \<Rightarrow> ((False, Some err), w1)
      | (Inr getRes, w1) \<Rightarrow>
          (if previous = None \<and>
              (case Item getRes of None \<Rightarrow> False | Some it \<Rightarrow> \<not> isItemExpired it (clock w1))
           then ((False, Some ErrKeyExists), w1)
           else
             (case DeleteItemWithContext (env w1) (AtomicDelete_input ddb key previous) of
                (Some err, w3) \<Rightarrow>
                  (case err of
                     AwsError code \<Rightarrow>
                       (if code = ErrCodeConditionalCheckFailedException
                        then ((False, Some ErrKeyNotFound), w3)
                        else ((False, Some err), w3))
                   | _ \<Rightarrow> ((False, Some err), w3))
              | (None, w3) \<Rightarrow> ((True, None), w3))))"

definition AtomicDelete :: "Store \<Rightarrow> world \<Rightarrow> string \<Rightarrow> KVPair option \<Rightarrow> (bool \<times> error option) \<times> world" where
  "AtomicDelete ddb w key previous = AtomicDelete_among (\<lambda>w. w) ddb w key previous"

section \<open>Waiting on channels\<close>

text \<open>
  A \<^verbatim>\<open>for { select { ... } }\<close> loop is run on a script of wake-ups. Each wake-up says
  what happened to the world while the loop was waiting (other clients writing,
  the clock advancing) and which case the \<^verbatim>\<open>select\<close> then took. A loop whose script
  ends before it returns is still waiting: \<open>Blocked\<close>. \<open>Panics\<close> is a run-time panic.
\<close>

datatype 'a outcome = Returns 'a | Blocked | Panics

definition arm :: "call \<Rightarrow> world \<Rightarrow> world" where
  "arm c w = w\<lparr>calls := calls w @ [c]\<rparr>"

subsection \<open>DeleteTree\<close>

datatype retry_case = TickerC | TimeoutC

fun retryDeleteTree_select ::
  "Store \<Rightarrow> world \<Rightarrow> (string \<times> WriteRequest list) list \<Rightarrow> ((world \<Rightarrow> world) \<times> retry_case) list
     \<Rightarrow> error option outcome \<times> world" where
  "retryDeleteTree_select ddb w pending [] = (Blocked, w)"
| "retryDeleteTree_select ddb w pending ((env, TickerC) # evs) =
     (case BatchWriteItemWithContext (env w) \<lparr>RequestItems = pending\<rparr> of
        (Inl err, w') \<Rightarrow> (Returns (Some err), w')
      | (Inr batchResult, w') \<Rightarrow>
          (if length (UnprocessedItems batchResult) = 0 then (Returns None, w')
           else retryDeleteTree_select ddb w' (UnprocessedItems batchResult) evs))"
| "retryDeleteTree_select ddb w pending ((env, TimeoutC) # evs) =
     (Returns (Some ErrDeleteTreeTimeout), env w)"

definition retryDeleteTree ::
  "Store \<Rightarrow> world \<Rightarrow> (string \<times> WriteRequest list) list \<Rightarrow> ((world \<Rightarrow> world) \<times> retry_case) list
     \<Rightarrow> error option outcome \<times> world" where
  "retryDeleteTree ddb w items evs =
     (case BatchWriteItemWithContext w \<lparr>RequestItems = items\<rparr> of
        (Inl err, w') \<Rightarrow> (Returns (Some err), w')
      | (Inr batchResult, w') \<Rightarrow>
          (if length (UnprocessedItems batchResult) = 0 then (Returns None, w')
           else retryDeleteTree_select ddb
                  (arm (NewTicker (1 * Second))
                     (arm (Sleep (DeleteTreeTimeoutSeconds * Second)) w'))
                  (UnprocessedItems batchResult) evs))"

definition DeleteTree ::
  "Store \<Rightarrow> world \<Rightarrow> string \<Rightarrow> ((world \<Rightarrow> world) \<times> retry_case) list \<Rightarrow> error option outcome \<times> world" where
  "DeleteTree ddb w keyPrefix evs =
     (case ScanWithContext w
             \<lparr>scan_TableName = tableName ddb,
              scan_FilterExpression = Some (begins_with partitionKey '':namePrefix''),
              scan_ExpressionAttributeValues = ['':namePrefix'' \<mapsto> AttrS keyPrefix],
              scan_ConsistentRead = None\<rparr> of
        (Inl err, w') \<Rightarrow> (Returns (Some err), w')
      | (Inr res, w') \<Rightarrow>
          (if length (Items res) = 0 then (Returns None, w')
           else retryDeleteTree ddb w'
                  [(tableName ddb,
                    map (\<lambda>it. DeleteRequest
                                (case it partitionKey of
                                   None \<Rightarrow> Map.empty
                                 | Some v \<Rightarrow> [partitionKey \<mapsto> v]))
                        (Items res))]
                  evs))"

subsection \<open>The lock\<close>

text \<open>
  The fields of \<^verbatim>\<open>dynamodbLock\<close>, and two facts about its goroutine and channels:
  \<open>holding\<close> says that a \<^verbatim>\<open>holdLock\<close> goroutine of this handle is running (so a send
  on \<^verbatim>\<open>unlockCh\<close> finds a receiver), \<open>lockHeld_closed\<close> that the channel returned by
  the last \<^verbatim>\<open>Lock\<close> is closed. \<^verbatim>\<open>renewCh\<close> and \<^verbatim>\<open>unlockCh\<close> appear as cases of the
  wake-up script.
\<close>

record dynamodbLock =
  l_ddb :: Store
  l_last :: "KVPair option"
  l_key :: string
  l_value :: bytes
  l_ttl :: int
  holding :: bool
  lockHeld_closed :: bool

record LockOptions =
  lock_TTL :: int
  lock_Value :: bytes

definition NewLock :: "Store \<Rightarrow> string \<Rightarrow> LockOptions option \<Rightarrow> dynamodbLock" where
  "NewLock store k opts =
     \<lparr>l_ddb = store,
      l_last = None,
      l_key = k,
      l_value = (case opts of
                   None \<Rightarrow> []
                 | Some given \<Rightarrow> if length (lock_Value given) \<noteq> 0 then lock_Value given else []),
      l_ttl = (case opts of
                 None \<Rightarrow> defaultLockTTL
               | Some given \<Rightarrow> if lock_TTL given \<noteq> 0 then lock_TTL given else defaultLockTTL),
      holding = False,
      lockHeld_closed = False\<rparr>"

definition tryLock :: "world \<Rightarrow> dynamodbLock \<Rightarrow> (bool \<times> error option) \<times> world \<times> dynamodbLock" where
  "tryLock w l =
     (case AtomicPut (l_ddb l) w (l_key l) (l_value l) (l_last l) (Some \<lparr>TTL = l_ttl l\<rparr>) of
        ((success, kv, Some err), w') \<Rightarrow>
          (if err = ErrKeyNotFound \<or> err = ErrKeyModified \<or> err = ErrKeyExists
           then ((False, None), w', l)
           else ((False, Some err), w', l))
      | ((success, kv, None), w') \<Rightarrow>
          (if success
           then ((True, None), w', l\<lparr>l_last := kv, holding := True, lockHeld_closed := False\<rparr>)
           else ((False, None), w', l)))"

datatype lock_case = LockTickerC | LockCtxDone

fun Lock_select ::
  "world \<Rightarrow> dynamodbLock \<Rightarrow> ((world \<Rightarrow> world) \<times> lock_case) list
     \<Rightarrow> error option outcome \<times> world \<times> dynamodbLock" where
  "Lock_select w l [] = (Blocked, w, l)"
| "Lock_select w l ((env, LockTickerC) # evs) =
     (case tryLock (env w) l of
        ((success, Some err), w', l') \<Rightarrow> (Returns (Some err), w', l')
      | ((success, None), w', l') \<Rightarrow>
          (if success then (Returns None, w', l') else Lock_select w' l' evs))"
| "Lock_select w l ((env, LockCtxDone) # evs) =
     (Returns (Some ErrLockAcquireCancelled), env w, l)"

text \<open>
  \<^verbatim>\<open>Lock\<close> returns the channel \<^verbatim>\<open>lockHeld\<close> and a nil error, or a nil channel and an
  error: the result here is the error, and the channel is the handle's
  \<open>lockHeld_closed\<close>.
\<close>

definition Lock ::
  "world \<Rightarrow> dynamodbLock \<Rightarrow> ((world \<Rightarrow> world) \<times> lock_case) list
     \<Rightarrow> error option outcome \<times> world \<times> dynamodbLock" where
  "Lock w l evs =
     (case tryLock w l of
        ((success, Some err), w', l') \<Rightarrow> (Returns (Some err), w', l')
      | ((success, None), w', l') \<Rightarrow>
          (if success then (Returns None, w', l')
           else Lock_select (arm (NewTicker (3 * Second)) w') l' evs))"

definition hold :: "world \<Rightarrow> dynamodbLock \<Rightarrow> error option \<times> world \<times> dynamodbLock" where
  "hold w l =
     (case AtomicPut (l_ddb l) w (l_key l) (l_value l) (l_last l) (Some \<lparr>TTL = l_ttl l\<rparr>) of
        ((success, kv, Some err), w') \<Rightarrow> (Some err, w', l)
      | ((success, kv, None), w') \<Rightarrow> (None, w', l\<lparr>l_last := kv\<rparr>))"

datatype hold_case = HeartbeatC | RenewC | UnlockC | HoldCtxDone

definition lockHeld_close :: "dynamodbLock \<Rightarrow> dynamodbLock" where
  "lockHeld_close l = l\<lparr>holding := False, lockHeld_closed := True\<rparr>"

fun holdLock_select ::
  "world \<Rightarrow> dynamodbLock \<Rightarrow> ((world \<Rightarrow> world) \<times> hold_case) list
     \<Rightarrow> unit outcome \<times> world \<times> dynamodbLock" where
  "holdLock_select w l [] = (Blocked, w, l)"
| "holdLock_select w l ((env, HeartbeatC) # evs) =
     (case hold (env w) l of
        (Some err, w', l') \<Rightarrow> (Returns (), w', lockHeld_close l')
      | (None, w', l') \<Rightarrow> holdLock_select w' l' evs)"
| "holdLock_select w l ((env, c) # evs) = (Returns (), env w, lockHeld_close l)"

text \<open>Go's division of durations truncates towards zero.\<close>

definition quo3 :: "int \<Rightarrow> int" where
  "quo3 d = (if 0 \<le> d then d div 3 else - ((- d) div 3))"

text \<open>\<^verbatim>\<open>time.NewTicker\<close> panics on a duration that is not positive.\<close>

definition holdLock ::
  "world \<Rightarrow> dynamodbLock \<Rightarrow> ((world \<Rightarrow> world) \<times> hold_case) list
     \<Rightarrow> unit outcome \<times> world \<times> dynamodbLock" where
  "holdLock w l evs =
     (if quo3 (l_ttl l) \<le> 0 then (Panics, w, lockHeld_close l)
      else holdLock_select (arm (NewTicker (quo3 (l_ttl l))) w) l evs)"

text \<open>
  \<^verbatim>\<open>Unlock\<close> first sends on the unbuffered \<^verbatim>\<open>unlockCh\<close>: with no \<^verbatim>\<open>holdLock\<close> goroutine
  to receive, the send never returns. Otherwise the goroutine takes its unlock
  case and returns, which closes \<^verbatim>\<open>lockHeld\<close>.
\<close>

definition Unlock :: "world \<Rightarrow> dynamodbLock \<Rightarrow> error option outcome \<times> world \<times> dynamodbLock" where
  "Unlock w l =
     (if \<not> holding l then (Blocked, w, l)
      else
        (case AtomicDelete (l_ddb l) w (l_key l) (l_last l) of
           ((applied, Some err), w') \<Rightarrow> (Returns (Some err), w', lockHeld_close l)
         | ((applied, None), w') \<Rightarrow> (Returns None, w', (lockHeld_close l)\<lparr>l_last := None\<rparr>)))"

section \<open>Notions used to state the properties\<close>

text \<open>The revision attribute stored under a key, and the revision as a number
  (0 when there is none, the value \<^verbatim>\<open>ADD\<close> starts from).\<close>

definition stored_revision :: "world \<Rightarrow> string \<Rightarrow> AttributeValue option" where
  "stored_revision w k = (case map_of (tbl w) k of None \<Rightarrow> None | Some it \<Rightarrow> it revisionAttribute)"

definition revision_of :: "world \<Rightarrow> string \<Rightarrow> int" where
  "revision_of w k = (case stored_revision w k of Some (AttrN v) \<Rightarrow> v | _ \<Rightarrow> 0)"

text \<open>
  The precondition "revision R" in the words of the specification: the stored
  revision equals R, and the item has no expiration or its expiration (seconds)
  is later than the time of evaluation (seconds).
\<close>

definition revision_matches_and_live :: "item option \<Rightarrow> 64 word \<Rightarrow> int \<Rightarrow> bool" where
  "revision_matches_and_live stored R now_seconds =
     (case stored of
        None \<Rightarrow> False
      | Some it \<Rightarrow>
          it revisionAttribute = Some (AttrN (uint R)) \<and>
          (case it ttlAttribute of
             None \<Rightarrow> True
           | Some (AttrN t) \<Rightarrow> now_seconds < t
           | Some (AttrS s) \<Rightarrow> False))"

text \<open>
  The item a successful write leaves: the revision one higher (1 on an item
  without revision), the encoded value replaced when a value is given, the
  expiration replaced when a positive TTL is given.
\<close>

definition written :: "int \<Rightarrow> bytes \<Rightarrow> WriteOptions option \<Rightarrow> item \<Rightarrow> item" where
  "written now val opts it =
     (let it1 = it(revisionAttribute \<mapsto>
                     AttrN (case it revisionAttribute of Some (AttrN v) \<Rightarrow> v + 1 | _ \<Rightarrow> 1));
          it2 = (if val = [] then it1
                 else it1(encodedValueAttribute \<mapsto> AttrS (EncodeToString val)))
      in case opts of
           None \<Rightarrow> it2
         | Some given \<Rightarrow>
             (if TTL given > 0 then it2(ttlAttribute \<mapsto> AttrN ((now + TTL given) div Second))
              else it2))"

text \<open>A run of writes to one key, each at its own clock reading; the result lists
  the revision stored after each write that reported success.\<close>

datatype write_op =
    PutOp bytes "WriteOptions option"
  | AtomicPutOp bytes "KVPair option" "WriteOptions option"

fun run_write :: "Store \<Rightarrow> string \<Rightarrow> world \<Rightarrow> write_op \<Rightarrow> bool \<times> world" where
  "run_write ddb k w (PutOp val opts) =
     (case Put ddb w k val opts of (err, w') \<Rightarrow> (err = None, w'))"
| "run_write ddb k w (AtomicPutOp val previous opts) =
     (case AtomicPut ddb w k val previous opts of ((applied, kv, err), w') \<Rightarrow> (applied, w'))"

fun observed_revisions :: "Store \<Rightarrow> string \<Rightarrow> world \<Rightarrow> (int \<times> write_op) list \<Rightarrow> int list" where
  "observed_revisions ddb k w [] = []"
| "observed_revisions ddb k w ((now, x) # xs) =
     (case run_write ddb k (w\<lparr>clock := now\<rparr>) x of
        (ok, w') \<Rightarrow>
          (if ok then [revision_of w' k] else []) @ observed_revisions ddb k w' xs)"

text \<open>Abbreviations for the two requests of \<^verbatim>\<open>AtomicPut\<close> and \<^verbatim>\<open>AtomicDelete\<close> and for the
  tests they make.\<close>

definition consistent_get :: "Store \<Rightarrow> string \<Rightarrow> call" where
  "consistent_get ddb k =
     GetItemCall \<lparr>get_TableName = tableName ddb, get_ConsistentRead = Some True,
                  get_Key = [partitionKey \<mapsto> AttrS k]\<rparr>"

definition key_is_live :: "world \<Rightarrow> string \<Rightarrow> bool" where
  "key_is_live w k =
     (case map_of (tbl w) k of None \<Rightarrow> False | Some it \<Rightarrow> \<not> isItemExpired it (clock w))"

definition translate_failed_check :: "error \<Rightarrow> error \<Rightarrow> error" where
  "translate_failed_check to e =
     (if e = AwsError ErrCodeConditionalCheckFailedException then to else e)"

definition write_allowed :: "item option \<Rightarrow> KVPair option \<Rightarrow> int \<Rightarrow> bool" where
  "write_allowed stored previous now =
     (case previous of
        None \<Rightarrow> True
      | Some p \<Rightarrow> revision_matches_and_live stored (LastIndex p) (now div Second))"

definition base_item :: "world \<Rightarrow> string \<Rightarrow> item" where
  "base_item w k = (case map_of (tbl w) k of None \<Rightarrow> [partitionKey \<mapsto> AttrS k] | Some it \<Rightarrow> it)"

text \<open>The table a \<^verbatim>\<open>Get\<close> with the given options reads.\<close>

definition read_view :: "world \<Rightarrow> ReadOptions option \<Rightarrow> (string \<times> item) list" where
  "read_view w opts =
     (if (case opts of None \<Rightarrow> True | Some given \<Rightarrow> Consistent given) then tbl w else replica w)"

text \<open>The world in which the write of an \<^verbatim>\<open>AtomicPut\<close> or \<^verbatim>\<open>AtomicDelete\<close> that started in
  \<open>w\<close> is evaluated: after the read was issued and the others did \<open>env\<close>.\<close>

definition write_time :: "(world \<Rightarrow> world) \<Rightarrow> Store \<Rightarrow> string \<Rightarrow> world \<Rightarrow> world" where
  "write_time env ddb k w = env (issued (consistent_get ddb k) w)"

text \<open>The errors of the conditional put that the acquisition treats as "the lock is
  taken".\<close>

definition recovered :: "error \<Rightarrow> bool" where
  "recovered e = (e = ErrKeyExists \<or> e = ErrKeyModified \<or> e = ErrKeyNotFound)"

text \<open>A wake-up of a waiting loop at which only the clock has moved.\<close>

definition at_second :: "int \<Rightarrow> world \<Rightarrow> world" where
  "at_second n w = w\<lparr>clock := n * Second\<rparr>"

text \<open>The keys a batch request names, and the timers in a trace.\<close>

fun batch_keys :: "call \<Rightarrow> string option list" where
  "batch_keys (BatchWriteItemCall inp) = map request_key (concat (map snd (RequestItems inp)))"
| "batch_keys c = []"

fun timer :: "call \<Rightarrow> int option" where
  "timer (NewTicker d) = Some d"
| "timer (Sleep d) = Some d"
| "timer c = None"

subsection \<open>Sample data\<close>

definition store0 :: Store where
  "store0 = \<lparr>tableName = ''locks''\<rparr>"

definition world0 :: world where
  "world0 = \<lparr>tbl = [], replica = [], clock = 1000 * Second, faults = [], leave = [], calls = []\<rparr>"

text \<open>A lease at revision 1 that expires at second 1005, and an item with the
  value "bar" at revision 1 that never expires.\<close>

definition lease_item :: item where
  "lease_item = [partitionKey \<mapsto> AttrS ''mylock'', revisionAttribute \<mapsto> AttrN 1,
                 ttlAttribute \<mapsto> AttrN 1005]"

definition plain_item :: item where
  "plain_item = [partitionKey \<mapsto> AttrS ''foo'', revisionAttribute \<mapsto> AttrN 1,
                 encodedValueAttribute \<mapsto> AttrS ''YmFy'']"

definition pair_at :: "string \<Rightarrow> 64 word \<Rightarrow> KVPair" where
  "pair_at k r = \<lparr>Key = k, Value = [], LastIndex = r\<rparr>"

definition expired_world :: world where
  "expired_world = world0\<lparr>tbl := [(''mylock'', lease_item)], replica := [(''mylock'', lease_item)],
                          clock := 1006 * Second\<rparr>"

text \<open>The lease held at revision 1 until second 1005, seen at second 1000.\<close>

definition held_world :: world where
  "held_world = world0\<lparr>tbl := [(''mylock'', lease_item)], replica := [(''mylock'', lease_item)]\<rparr>"

text \<open>The lease taken over by another holder, now at revision 2; and a handle that
  wrote revision 1 and whose \<^verbatim>\<open>holdLock\<close> goroutine is still running.\<close>

definition stolen_world :: world where
  "stolen_world =
     world0\<lparr>tbl := [(''mylock'', lease_item(revisionAttribute \<mapsto> AttrN 2,
                                              ttlAttribute \<mapsto> AttrN 1015))],
            clock := 1006 * Second\<rparr>"

definition stale_handle :: dynamodbLock where
  "stale_handle =
     (NewLock store0 ''mylock'' None)\<lparr>l_last := Some (pair_at ''mylock'' 1), holding := True\<rparr>"

definition fresh_handle :: dynamodbLock where
  "fresh_handle = NewLock store0 ''mylock'' None"

text \<open>Five keys to delete; the backend leaves "d" and "e" unprocessed at the first
  batch and nothing at the second. In \<open>stuck_world\<close> it never processes anything.\<close>

definition five_requests :: "(string \<times> WriteRequest list) list" where
  "five_requests =
     [(''locks'', map (\<lambda>k. DeleteRequest [partitionKey \<mapsto> AttrS k])
                    [''a'', ''b'', ''c'', ''d'', ''e''])]"

definition five_world :: world where
  "five_world =
     world0\<lparr>tbl := map (\<lambda>k. (k, [partitionKey \<mapsto> AttrS k, revisionAttribute \<mapsto> AttrN 1]))
                     [''a'', ''b'', ''c'', ''d'', ''e''],
            leave := [\<lambda>k. k = ''d'' \<or> k = ''e'']\<rparr>"

definition stuck_world :: world where
  "stuck_world = five_world\<lparr>leave := [\<lambda>k. True, \<lambda>k. True, \<lambda>k. True]\<rparr>"

text \<open>Four writes to the absent key "foo": a \<^verbatim>\<open>Put\<close> of "bar", a \<^verbatim>\<open>Put\<close> of the empty
  value, an \<^verbatim>\<open>AtomicPut\<close> of "bar" again expecting revision 2, and an \<^verbatim>\<open>AtomicPut\<close>
  expecting absence (which is refused).\<close>

definition four_writes :: "(int \<times> write_op) list" where
  "four_writes =
     [(1000 * Second, PutOp [0x62, 0x61, 0x72] None),
      (1001 * Second, PutOp [] None),
      (1002 * Second, AtomicPutOp [0x62, 0x61, 0x72] (Some (pair_at ''foo'' 2)) None),
      (1003 * Second, AtomicPutOp [1] None None)]"

section \<open>Basic facts about the backend and the requests\<close>

lemma key_of_partition [simp]: "key_of [partitionKey \<mapsto> AttrS k] = Some k"
  by (simp add: key_of_def)

lemma issued_fields [simp]:
  "tbl (issued c w) = tbl w" "replica (issued c w) = replica w" "clock (issued c w) = clock w"
  "leave (issued c w) = leave w" "calls (issued c w) = calls w @ [c]"
  "faults (issued c w) = tl (faults w)"
  by (simp_all add: issued_def)

lemma attr_names_distinct [simp]:
  "revisionAttribute \<noteq> encodedValueAttribute" "revisionAttribute \<noteq> ttlAttribute"
  "encodedValueAttribute \<noteq> ttlAttribute" "encodedValueAttribute \<noteq> revisionAttribute"
  "ttlAttribute \<noteq> revisionAttribute" "ttlAttribute \<noteq> encodedValueAttribute"
  "partitionKey \<noteq> revisionAttribute" "partitionKey \<noteq> encodedValueAttribute"
  "partitionKey \<noteq> ttlAttribute" "revisionAttribute \<noteq> partitionKey"
  "encodedValueAttribute \<noteq> partitionKey" "ttlAttribute \<noteq> partitionKey"
  by (simp_all add: revisionAttribute_def encodedValueAttribute_def ttlAttribute_def
        partitionKey_def)

lemma codes_differ [simp]:
  "ErrCodeValidationException \<noteq> ErrCodeConditionalCheckFailedException"
  by (simp add: ErrCodeValidationException_def ErrCodeConditionalCheckFailedException_def)

subsection \<open>Reads\<close>

lemma getKey_eq:
  "getKey ddb w k opts =
     (case next_fault w of
        Some e \<Rightarrow> Inl e
      | None \<Rightarrow> Inr \<lparr>Item = map_of (if Consistent opts then tbl w else replica w) k\<rparr>,
      issued (GetItemCall \<lparr>get_TableName = tableName ddb,
                get_ConsistentRead = Some (Consistent opts),
                get_Key = [partitionKey \<mapsto> AttrS k]\<rparr>) w)"
  by (simp add: getKey_def GetItemWithContext_def issue_def split: option.splits)

lemma Exists_eq:
  "Exists ddb w k opts =
     (case next_fault w of
        Some e \<Rightarrow> (False, Some e)
      | None \<Rightarrow>
          (case map_of (replica w) k of
             None \<Rightarrow> (False, None)
           | Some it \<Rightarrow> (\<not> isItemExpired it (clock w), None)),
      issued (GetItemCall \<lparr>get_TableName = tableName ddb, get_ConsistentRead = None,
                get_Key = [partitionKey \<mapsto> AttrS k]\<rparr>) w)"
  by (simp add: Exists_def GetItemWithContext_def issue_def split: option.splits)

lemma Get_eq:
  "Get ddb w k opts =
     (case next_fault w of
        Some e \<Rightarrow> Inl e
      | None \<Rightarrow>
          (case map_of (if (case opts of None \<Rightarrow> True | Some given \<Rightarrow> Consistent given)
                        then tbl w else replica w) k of
             None \<Rightarrow> Inl ErrKeyNotFound
           | Some it \<Rightarrow> if isItemExpired it (clock w) then Inl ErrKeyNotFound else decodeItem it),
      issued (GetItemCall \<lparr>get_TableName = tableName ddb,
                get_ConsistentRead =
                  Some (case opts of None \<Rightarrow> True | Some given \<Rightarrow> Consistent given),
                get_Key = [partitionKey \<mapsto> AttrS k]\<rparr>) w)"
  by (simp add: Get_def getKey_eq split: option.splits)

lemma List_directory_calls:
  "calls (snd (List_directory ddb w d opts)) = calls w @ [ScanCall (List_ScanInput ddb d opts)]"
  by (simp add: List_directory_def ScanWithContext_def issue_def
        split: option.splits sum.splits prod.splits)

section \<open>Exists and its read options\<close>

lemma Get_bar: "fst (Get store0 (world0\<lparr>tbl := [(''foo'', plain_item)]\<rparr>) ''foo'' None)
     = Inr \<lparr>Key = ''foo'', Value = [0x62, 0x61, 0x72], LastIndex = 1\<rparr>"
  by code_simp

text \<open>
  Claim C10. \<^verbatim>\<open>Exists\<close> does not look at its \<^verbatim>\<open>ReadOptions\<close>: whatever the options, it
  issues the same single GetItem request, with no consistent-read flag, so its
  answer is computed from the copy of the table that lags (and from the clock);
  \<^verbatim>\<open>Get\<close> and \<^verbatim>\<open>List\<close> called with nil options set the consistent-read flag to true.
\<close>

theorem Exists_ignores_ReadOptions:
  "Exists ddb w k opts = Exists ddb w k opts'
   \<and> calls (snd (Exists ddb w k opts)) =
       calls w @ [GetItemCall \<lparr>get_TableName = tableName ddb, get_ConsistentRead = None,
                               get_Key = [partitionKey \<mapsto> AttrS k]\<rparr>]
   \<and> fst (Exists ddb w k opts) =
       (case next_fault w of
          Some e \<Rightarrow> (False, Some e)
        | None \<Rightarrow>
            (case map_of (replica w) k of
               None \<Rightarrow> (False, None)
             | Some it \<Rightarrow> (\<not> isItemExpired it (clock w), None)))
   \<and> calls (snd (Get ddb w k None)) =
       calls w @ [GetItemCall \<lparr>get_TableName = tableName ddb, get_ConsistentRead = Some True,
                               get_Key = [partitionKey \<mapsto> AttrS k]\<rparr>]
   \<and> calls (snd (List_directory ddb w d None)) =
       calls w @ [ScanCall \<lparr>scan_TableName = tableName ddb,
                            scan_FilterExpression = Some (begins_with partitionKey '':namePrefix''),
                            scan_ExpressionAttributeValues = ['':namePrefix'' \<mapsto> AttrS d],
                            scan_ConsistentRead = Some True\<rparr>]"
  by (simp add: Exists_eq Get_eq List_directory_calls List_ScanInput_def)

text \<open>The item is in the table but not yet in the lagging copy: \<^verbatim>\<open>Exists\<close> with
  consistent options says no, \<^verbatim>\<open>Get\<close> with nil options returns it.\<close>

theorem Exists_ignores_ReadOptions_witness:
  "fst (Exists store0 (world0\<lparr>tbl := [(''foo'', plain_item)]\<rparr>) ''foo''
          (Some \<lparr>Consistent = True\<rparr>)) = (False, None)
   \<and> fst (Get store0 (world0\<lparr>tbl := [(''foo'', plain_item)]\<rparr>) ''foo'' None)
     = Inr \<lparr>Key = ''foo'', Value = [0x62, 0x61, 0x72], LastIndex = 1\<rparr>"
proof -
  have "fst (Exists store0 (world0\<lparr>tbl := [(''foo'', plain_item)]\<rparr>) ''foo''
               (Some \<lparr>Consistent = True\<rparr>)) =
        (case next_fault (world0\<lparr>tbl := [(''foo'', plain_item)]\<rparr>) of
           Some e \<Rightarrow> (False, Some e)
         | None \<Rightarrow>
             (case map_of (replica (world0\<lparr>tbl := [(''foo'', plain_item)]\<rparr>)) ''foo'' of
                None \<Rightarrow> (False, None)
              | Some it \<Rightarrow>
                  (\<not> isItemExpired it (clock (world0\<lparr>tbl := [(''foo'', plain_item)]\<rparr>)), None)))"
    using Exists_ignores_ReadOptions
      [of store0 "world0\<lparr>tbl := [(''foo'', plain_item)]\<rparr>" "''foo''"
          "Some \<lparr>Consistent = True\<rparr>" None "''foo''"]
    by blast
  then show ?thesis
    using Get_bar by (simp add: world0_def next_fault_def)
qed

section \<open>Logical expiration in Get and Exists\<close>

lemma isItemExpired_N:
  "it ttlAttribute = Some (AttrN t) \<Longrightarrow> - (2 ^ 63) \<le> t \<Longrightarrow> t < 2 ^ 63 \<Longrightarrow>
   isItemExpired it now = (t * Second < now)"
  by (simp add: isItemExpired_def)

lemma isItemExpired_no_ttl: "it ttlAttribute = None \<Longrightarrow> \<not> isItemExpired it now"
  by (simp add: isItemExpired_def)

text \<open>
  Claim C9. With the backend call not failing: \<^verbatim>\<open>Get\<close> returns \<^verbatim>\<open>ErrKeyNotFound\<close> when the
  key is absent from the table it reads, and also when the stored item carries an
  expiration (seconds) that lies before the clock, and it leaves that item in
  the table; an item without expiration attribute is expired at no time and is
  decoded and returned. \<^verbatim>\<open>Exists\<close> answers false in the first two cases and true
  in the third.
\<close>

theorem Get_masks_absent_and_expired:
  assumes "next_fault w = None"
  shows "(map_of (read_view w opts) k = None \<longrightarrow> fst (Get ddb w k opts) = Inl ErrKeyNotFound)
    \<and> (\<forall>it t. map_of (read_view w opts) k = Some it \<and> it ttlAttribute = Some (AttrN t)
            \<and> - (2 ^ 63) \<le> t \<and> t < 2 ^ 63 \<and> t * Second < clock w
          \<longrightarrow> fst (Get ddb w k opts) = Inl ErrKeyNotFound
              \<and> tbl (snd (Get ddb w k opts)) = tbl w
              \<and> replica (snd (Get ddb w k opts)) = replica w)
    \<and> (\<forall>it. map_of (read_view w opts) k = Some it \<and> it ttlAttribute = None
          \<longrightarrow> (\<forall>now. \<not> isItemExpired it now) \<and> fst (Get ddb w k opts) = decodeItem it)
    \<and> (map_of (replica w) k = None \<longrightarrow> fst (Exists ddb w k opts) = (False, None))
    \<and> (\<forall>it t. map_of (replica w) k = Some it \<and> it ttlAttribute = Some (AttrN t)
            \<and> - (2 ^ 63) \<le> t \<and> t < 2 ^ 63 \<and> t * Second < clock w
          \<longrightarrow> fst (Exists ddb w k opts) = (False, None))
    \<and> (\<forall>it. map_of (replica w) k = Some it \<and> it ttlAttribute = None
          \<longrightarrow> fst (Exists ddb w k opts) = (True, None))"
  using assms
  by (auto simp: Get_eq Exists_eq read_view_def isItemExpired_N isItemExpired_no_ttl)

text \<open>The lease that expired at second 1005, read at second 1006; and a key that
  is not there.\<close>

theorem Get_masks_absent_and_expired_witness:
  "next_fault expired_world = None
   \<and> map_of (tbl expired_world) ''mylock'' = Some lease_item
   \<and> lease_item ttlAttribute = Some (AttrN 1005)
   \<and> fst (Get store0 expired_world ''mylock'' None) = Inl ErrKeyNotFound
   \<and> map_of (tbl (snd (Get store0 expired_world ''mylock'' None))) ''mylock'' = Some lease_item
   \<and> fst (Exists store0 expired_world ''mylock'' None) = (False, None)
   \<and> fst (Get store0 expired_world ''foo'' None) = Inl ErrKeyNotFound"
proof -
  have nf: "next_fault expired_world = None"
    by (simp add: expired_world_def world0_def next_fault_def)
  have v: "read_view expired_world None = [(''mylock'', lease_item)]"
          "replica expired_world = [(''mylock'', lease_item)]"
          "tbl expired_world = [(''mylock'', lease_item)]"
          "clock expired_world = 1006 * Second"
    by (simp_all add: expired_world_def world0_def read_view_def)
  have t: "lease_item ttlAttribute = Some (AttrN 1005)"
    by (simp add: lease_item_def ttlAttribute_def)
  note g = Get_masks_absent_and_expired [OF nf, of None "''mylock''" store0]
  note h = Get_masks_absent_and_expired [OF nf, of None "''foo''" store0]
  from g v t have 1: "fst (Get store0 expired_world ''mylock'' None) = Inl ErrKeyNotFound
     \<and> tbl (snd (Get store0 expired_world ''mylock'' None)) = tbl expired_world
     \<and> fst (Exists store0 expired_world ''mylock'' None) = (False, None)"
    by (simp add: Second_def)
  from h v have 2: "fst (Get store0 expired_world ''foo'' None) = Inl ErrKeyNotFound"
    by simp
  show ?thesis using nf v t 1 2 by simp
qed

section \<open>The conditional write\<close>

lemma AtomicPut_input_apply:
  "apply_actions (upd_ExpressionAttributeValues (AtomicPut_input ddb now key val previous opts))
       (upd_UpdateExpression (AtomicPut_input ddb now key val previous opts)) it =
     (case it revisionAttribute of
        Some (AttrS s) \<Rightarrow> None
      | _ \<Rightarrow> Some (written now val opts it))"
  apply (cases previous; cases opts; cases "val = []")
  apply (simp_all add: AtomicPut_input_def updateExpression_def Let_def written_def
            split: AttributeValue.splits option.splits)
  done

lemma eval_lastRevisionCondition:
  assumes "vals '':lastRevision'' = Some (AttrN (uint R))"
    and "vals '':timeNow'' = Some (AttrN ns)"
  shows "eval_condition vals (case stored of None \<Rightarrow> Map.empty | Some it \<Rightarrow> it)
           lastRevisionCondition = Some (revision_matches_and_live stored R ns)"
  using assms
  by (cases stored)
     (auto simp: lastRevisionCondition_def revision_matches_and_live_def
           split: option.splits AttributeValue.splits)

lemma AtomicPut_input_fields [simp]:
  "upd_Key (AtomicPut_input ddb now key val previous opts) = [partitionKey \<mapsto> AttrS key]"
  "upd_ReturnValues (AtomicPut_input ddb now key val previous opts) = Some ReturnValueAllNew"
  "upd_ConditionExpression (AtomicPut_input ddb now key val previous opts) =
     (case previous of None \<Rightarrow> None | Some p \<Rightarrow> Some lastRevisionCondition)"
  by (simp_all add: AtomicPut_input_def Let_def split: prod.splits option.splits)

lemma AtomicPut_input_vals:
  "upd_ExpressionAttributeValues (AtomicPut_input ddb now key val (Some p) opts) '':lastRevision''
     = Some (AttrN (uint (LastIndex p)))"
  "upd_ExpressionAttributeValues (AtomicPut_input ddb now key val (Some p) opts) '':timeNow''
     = Some (AttrN (now div Second))"
  by (simp_all add: AtomicPut_input_def Let_def split: prod.splits)

lemma UpdateItem_AtomicPut_input:
  "UpdateItemWithContext w (AtomicPut_input ddb now key val previous opts) =
     (let w' = issued (UpdateItemCall (AtomicPut_input ddb now key val previous opts)) w
      in case next_fault w of
           Some e \<Rightarrow> (Inl e, w')
         | None \<Rightarrow>
             (if \<not> write_allowed (map_of (tbl w) key) previous now
              then (Inl (AwsError ErrCodeConditionalCheckFailedException), w')
              else
                (case base_item w key revisionAttribute of
                   Some (AttrS s) \<Rightarrow> (Inl (AwsError ErrCodeValidationException), w')
                 | _ \<Rightarrow>
                     (Inr \<lparr>Attributes = written now val opts (base_item w key)\<rparr>,
                      w'\<lparr>tbl := AList.update key (written now val opts (base_item w key))
                                  (tbl w)\<rparr>))))"
proof (cases previous)
  case None
  then show ?thesis
    by (simp add: UpdateItemWithContext_def issue_def Let_def AtomicPut_input_apply
          write_allowed_def base_item_def split: option.splits AttributeValue.splits)
next
  case (Some p)
  then show ?thesis
    by (simp add: UpdateItemWithContext_def issue_def Let_def AtomicPut_input_apply
          write_allowed_def base_item_def eval_lastRevisionCondition [OF AtomicPut_input_vals]
          split: option.splits AttributeValue.splits)
qed

text \<open>What \<^verbatim>\<open>AtomicPut\<close> returns and leaves behind, case by case.\<close>

lemma AtomicPut_among_let:
  "AtomicPut_among env ddb w key val previous opts =
     (let w1 = issued (consistent_get ddb key) w
      in case next_fault w of
           Some e \<Rightarrow> ((False, None, Some e), w1)
         | None \<Rightarrow>
             (if previous = None \<and> key_is_live w key then ((False, None, Some ErrKeyExists), w1)
              else
                (let w2 = env w1;
                     w3 = issued (UpdateItemCall
                                    (AtomicPut_input ddb (clock w2) key val previous opts)) w2;
                     new = written (clock w2) val opts (base_item w2 key)
                 in case next_fault w2 of
                      Some e \<Rightarrow>
                        ((False, None, Some (translate_failed_check ErrKeyModified e)), w3)
                    | None \<Rightarrow>
                        (if \<not> write_allowed (map_of (tbl w2) key) previous (clock w2)
                         then ((False, None, Some ErrKeyModified), w3)
                         else
                           (case base_item w2 key revisionAttribute of
                              Some (AttrS s) \<Rightarrow>
                                ((False, None, Some (AwsError ErrCodeValidationException)), w3)
                            | _ \<Rightarrow>
                                (case decodeItem new of
                                   Inl e \<Rightarrow> (False, None, Some e)
                                 | Inr kv \<Rightarrow> (True, Some kv, None),
                                 w3\<lparr>tbl := AList.update key new (tbl w2)\<rparr>))))))"
  by (simp add: AtomicPut_among_def getKey_eq UpdateItem_AtomicPut_input Let_def
        consistent_get_def key_is_live_def translate_failed_check_def
        split: option.splits AttributeValue.splits error.splits sum.splits)

lemma AtomicPut_among_eq:
  "AtomicPut_among env ddb w key val previous opts =
     (case next_fault w of
        Some e \<Rightarrow> ((False, None, Some e), issued (consistent_get ddb key) w)
      | None \<Rightarrow>
          (if previous = None \<and> key_is_live w key
           then ((False, None, Some ErrKeyExists), issued (consistent_get ddb key) w)
           else
             (case next_fault (write_time env ddb key w) of
                Some e \<Rightarrow>
                  ((False, None, Some (translate_failed_check ErrKeyModified e)),
                   issued (UpdateItemCall
                             (AtomicPut_input ddb (clock (write_time env ddb key w)) key val
                                previous opts))
                     (write_time env ddb key w))
              | None \<Rightarrow>
                  (if \<not> write_allowed (map_of (tbl (write_time env ddb key w)) key) previous
                          (clock (write_time env ddb key w))
                   then ((False, None, Some ErrKeyModified),
                         issued (UpdateItemCall
                                   (AtomicPut_input ddb (clock (write_time env ddb key w)) key val
                                      previous opts))
                           (write_time env ddb key w))
                   else
                     (case base_item (write_time env ddb key w) key revisionAttribute of
                        Some (AttrS s) \<Rightarrow>
                          ((False, None, Some (AwsError ErrCodeValidationException)),
                           issued (UpdateItemCall
                                     (AtomicPut_input ddb (clock (write_time env ddb key w)) key
                                        val previous opts))
                             (write_time env ddb key w))
                      | _ \<Rightarrow>
                          (case decodeItem
                                  (written (clock (write_time env ddb key w)) val opts
                                     (base_item (write_time env ddb key w) key)) of
                             Inl e \<Rightarrow> (False, None, Some e)
                           | Inr kv \<Rightarrow> (True, Some kv, None),
                           (issued (UpdateItemCall
                                      (AtomicPut_input ddb (clock (write_time env ddb key w)) key
                                         val previous opts))
                              (write_time env ddb key w))
                             \<lparr>tbl := AList.update key
                                        (written (clock (write_time env ddb key w)) val opts
                                           (base_item (write_time env ddb key w) key))
                                        (tbl (write_time env ddb key w))\<rparr>))))))"
  by (simp only: AtomicPut_among_let Let_def write_time_def)

lemma written_revision:
  "written now val opts it revisionAttribute =
     Some (AttrN (case it revisionAttribute of Some (AttrN v) \<Rightarrow> v + 1 | _ \<Rightarrow> 1))"
  by (simp add: written_def Let_def split: option.splits)

lemma decodeItem_LastIndex:
  "decodeItem it = Inr kv \<Longrightarrow> it revisionAttribute = Some (AttrN v) \<Longrightarrow> LastIndex kv = word_of_int v"
  by (auto simp: decodeItem_def Let_def split: option.splits sum.splits if_splits)

lemma live_revision:
  "revision_matches_and_live (map_of t k) R ns \<Longrightarrow>
     \<exists>it. map_of t k = Some it \<and> it revisionAttribute = Some (AttrN (uint R))"
  by (auto simp: revision_matches_and_live_def split: option.splits)

lemma AtomicPut_among_refused:
  assumes "next_fault w = None"
    and "next_fault (write_time env ddb key w) = None"
    and "\<not> write_allowed (map_of (tbl (write_time env ddb key w)) key) (Some p)
            (clock (write_time env ddb key w))"
  shows "AtomicPut_among env ddb w key val (Some p) opts =
           ((False, None, Some ErrKeyModified),
            issued (UpdateItemCall
                      (AtomicPut_input ddb (clock (write_time env ddb key w)) key val (Some p) opts))
              (write_time env ddb key w))"
  using assms by (simp add: AtomicPut_among_eq)

lemma AtomicPut_among_applied:
  assumes "next_fault w = None"
    and "next_fault (write_time env ddb key w) = None"
    and "\<not> (previous = None \<and> key_is_live w key)"
    and "write_allowed (map_of (tbl (write_time env ddb key w)) key) previous
            (clock (write_time env ddb key w))"
    and "\<forall>s. base_item (write_time env ddb key w) key revisionAttribute \<noteq> Some (AttrS s)"
  shows "AtomicPut_among env ddb w key val previous opts =
           (case decodeItem (written (clock (write_time env ddb key w)) val opts
                               (base_item (write_time env ddb key w) key)) of
                  Inl e \<Rightarrow> (False, None, Some e)
                | Inr kv \<Rightarrow> (True, Some kv, None),
            (issued (UpdateItemCall
                       (AtomicPut_input ddb (clock (write_time env ddb key w)) key val previous opts))
               (write_time env ddb key w))
              \<lparr>tbl := AList.update key
                         (written (clock (write_time env ddb key w)) val opts
                            (base_item (write_time env ddb key w) key))
                         (tbl (write_time env ddb key w))\<rparr>)"
proof -
  have 1: "(previous = None \<and> key_is_live w key) = False" using assms(3) by simp
  have 2: "(\<not> write_allowed (map_of (tbl (write_time env ddb key w)) key) previous
            (clock (write_time env ddb key w))) = False"
    using assms(4) by simp
  show ?thesis
    unfolding AtomicPut_among_eq 1 2 assms(1) assms(2)
    using assms(5)
    by (simp split: option.splits AttributeValue.splits)
qed

lemma AtomicPut_among_matched:
  assumes "next_fault w = None"
    and "next_fault (write_time env ddb key w) = None"
    and T: "revision_matches_and_live (map_of (tbl (write_time env ddb key w)) key)
                 (LastIndex p) (clock (write_time env ddb key w) div Second)"
  shows "\<exists>it. map_of (tbl (write_time env ddb key w)) key = Some it
           \<and> it revisionAttribute = Some (AttrN (uint (LastIndex p)))
           \<and> AtomicPut_among env ddb w key val (Some p) opts =
         (case decodeItem (written (clock (write_time env ddb key w)) val opts it) of
                Inl e \<Rightarrow> (False, None, Some e)
              | Inr kv \<Rightarrow> (True, Some kv, None),
          (issued (UpdateItemCall
                     (AtomicPut_input ddb (clock (write_time env ddb key w)) key val (Some p) opts))
             (write_time env ddb key w))
                \<lparr>tbl := AList.update key (written (clock (write_time env ddb key w)) val opts it)
                     (tbl (write_time env ddb key w))\<rparr>)"
proof -
  from live_revision [OF T] obtain it where
      it: "map_of (tbl (write_time env ddb key w)) key = Some it"
        "it revisionAttribute = Some (AttrN (uint (LastIndex p)))"
    by (elim exE conjE)
  have b: "base_item (write_time env ddb key w) key = it" by (simp add: base_item_def it)
  have wa: "write_allowed (map_of (tbl (write_time env ddb key w)) key) (Some p)
              (clock (write_time env ddb key w))"
    using T by (simp add: write_allowed_def)
  have ns: "\<forall>s. base_item (write_time env ddb key w) key revisionAttribute \<noteq> Some (AttrS s)"
    by (simp add: b it)
  have np: "\<not> (Some p = None \<and> key_is_live w key)" by simp
  have eq: "AtomicPut_among env ddb w key val (Some p) opts =
         (case decodeItem (written (clock (write_time env ddb key w)) val opts it) of
                Inl e \<Rightarrow> (False, None, Some e)
              | Inr kv \<Rightarrow> (True, Some kv, None),
          (issued (UpdateItemCall
                     (AtomicPut_input ddb (clock (write_time env ddb key w)) key val (Some p) opts))
             (write_time env ddb key w))
                \<lparr>tbl := AList.update key (written (clock (write_time env ddb key w)) val opts it)
                     (tbl (write_time env ddb key w))\<rparr>)"
    using AtomicPut_among_applied [OF assms(1,2) np wa ns, of val opts] unfolding b .
  show ?thesis
    by (rule exI [of _ it]) (intro conjI it eq)
qed

text \<open>
  Claim C2. \<^verbatim>\<open>AtomicPut\<close> with a previous pair at revision R, with neither backend
  call failing and whatever the others do between its read and its write: if at
  the write the stored revision is R and the item has no expiration or one later
  than the clock (in seconds), the stored revision becomes R + 1 and the result
  is the decoding of the item as written (applied, that item, no error; its
  \<^verbatim>\<open>LastIndex\<close> is R + 1); otherwise the result is not applied, no item,
  \<^verbatim>\<open>ErrKeyModified\<close>, and the table is as it was.
\<close>

theorem AtomicPut_expected_revision:
  assumes "next_fault w = None"
    and "next_fault (write_time env ddb key w) = None"
  shows "(case AtomicPut_among env ddb w key val (Some p) opts of
            ((applied, kv, err), w3) \<Rightarrow>
              (if revision_matches_and_live (map_of (tbl (write_time env ddb key w)) key)
                    (LastIndex p) (clock (write_time env ddb key w) div Second)
               then stored_revision w3 key = Some (AttrN (uint (LastIndex p) + 1))
                  \<and> (case map_of (tbl w3) key of
                       None \<Rightarrow> False
                     | Some new \<Rightarrow>
                         (applied, kv, err) =
                           (case decodeItem new of
                              Inl e \<Rightarrow> (False, None, Some e)
                            | Inr post \<Rightarrow> (True, Some post, None)))
                  \<and> (applied \<longrightarrow> map_option LastIndex kv = Some (LastIndex p + 1))
               else (applied, kv, err) = (False, None, Some ErrKeyModified)
                  \<and> tbl w3 = tbl (write_time env ddb key w)))"
proof (cases "revision_matches_and_live (map_of (tbl (write_time env ddb key w)) key)
                 (LastIndex p) (clock (write_time env ddb key w) div Second)")
  case False
  then have "\<not> write_allowed (map_of (tbl (write_time env ddb key w)) key) (Some p)
                 (clock (write_time env ddb key w))"
    by (simp add: write_allowed_def)
  from AtomicPut_among_refused [OF assms this] have
    eq: "AtomicPut_among env ddb w key val (Some p) opts =
           ((False, None, Some ErrKeyModified),
            issued (UpdateItemCall
                      (AtomicPut_input ddb (clock (write_time env ddb key w)) key val (Some p) opts))
              (write_time env ddb key w))" .
  show ?thesis unfolding eq using False by simp
next
  case True
  from AtomicPut_among_matched [OF assms True, of val opts] obtain it where
    it: "it revisionAttribute = Some (AttrN (uint (LastIndex p)))"
    and eq: "AtomicPut_among env ddb w key val (Some p) opts =
         (case decodeItem (written (clock (write_time env ddb key w)) val opts it) of
                Inl e \<Rightarrow> (False, None, Some e)
              | Inr kv \<Rightarrow> (True, Some kv, None),
          (issued (UpdateItemCall
                     (AtomicPut_input ddb (clock (write_time env ddb key w)) key val (Some p) opts))
             (write_time env ddb key w))
                \<lparr>tbl := AList.update key (written (clock (write_time env ddb key w)) val opts it)
                     (tbl (write_time env ddb key w))\<rparr>)"
    by (elim exE conjE)
  define new where "new = written (clock (write_time env ddb key w)) val opts it"
  have nr: "new revisionAttribute = Some (AttrN (uint (LastIndex p) + 1))"
    by (simp add: new_def written_revision it)
  show ?thesis
  proof (cases "decodeItem new")
    case (Inl e)
    show ?thesis
      unfolding eq new_def [symmetric] Inl using True
      by (simp add: stored_revision_def update_conv' nr Inl)
  next
    case (Inr post)
    from decodeItem_LastIndex [OF Inr nr] have "LastIndex post = LastIndex p + 1" by simp
    then show ?thesis
      unfolding eq new_def [symmetric] Inr using True
      by (simp add: stored_revision_def update_conv' nr Inr)
  qed
qed

lemma renew_held:
  "fst (AtomicPut_among (\<lambda>w. w) store0 held_world ''mylock'' [] (Some (pair_at ''mylock'' 1))
          (Some \<lparr>TTL = 20 * Second\<rparr>))
     = (True, Some \<lparr>Key = ''mylock'', Value = [], LastIndex = 2\<rparr>, None)"
  by code_simp

lemma held_world_facts:
  "next_fault held_world = None"
  "next_fault (write_time (\<lambda>w. w) store0 ''mylock'' held_world) = None"
  "tbl (write_time (\<lambda>w. w) store0 ''mylock'' held_world) = [(''mylock'', lease_item)]"
  "clock (write_time (\<lambda>w. w) store0 ''mylock'' held_world) = 1000 * Second"
  by (simp_all add: held_world_def world0_def next_fault_def write_time_def issued_def)

lemma lease_item_live:
  "revision_matches_and_live (Some lease_item) 1 1000"
  by (simp add: revision_matches_and_live_def lease_item_def revisionAttribute_def ttlAttribute_def)

text \<open>Renewing the lease held at revision 1, five seconds before it expires.\<close>

theorem AtomicPut_expected_revision_witness:
  "next_fault held_world = None
   \<and> revision_matches_and_live (map_of (tbl held_world) ''mylock'') 1 (clock held_world div Second)
   \<and> fst (AtomicPut_among (\<lambda>w. w) store0 held_world ''mylock'' [] (Some (pair_at ''mylock'' 1))
            (Some \<lparr>TTL = 20 * Second\<rparr>))
       = (True, Some \<lparr>Key = ''mylock'', Value = [], LastIndex = 2\<rparr>, None)
   \<and> stored_revision
         (snd (AtomicPut_among (\<lambda>w. w) store0 held_world ''mylock'' [] (Some (pair_at ''mylock'' 1))
                 (Some \<lparr>TTL = 20 * Second\<rparr>))) ''mylock'' = Some (AttrN 2)"
proof -
  obtain a kv err w3 where
    r: "AtomicPut_among (\<lambda>w. w) store0 held_world ''mylock'' [] (Some (pair_at ''mylock'' 1))
          (Some \<lparr>TTL = 20 * Second\<rparr>) = ((a, kv, err), w3)"
    by (metis prod.exhaust)
  have "stored_revision w3 ''mylock'' = Some (AttrN 2)"
    using AtomicPut_expected_revision
      [where w = held_world and env = "\<lambda>w. w" and ddb = store0 and key = "''mylock''"
         and val = "[]" and p = "pair_at ''mylock'' 1" and opts = "Some \<lparr>TTL = 20 * Second\<rparr>"]
    unfolding r
    by (simp add: held_world_facts lease_item_live Second_def pair_at_def)
  then have s: "stored_revision
         (snd (AtomicPut_among (\<lambda>w. w) store0 held_world ''mylock'' [] (Some (pair_at ''mylock'' 1))
                 (Some \<lparr>TTL = 20 * Second\<rparr>))) ''mylock'' = Some (AttrN 2)"
    by (simp add: r)
  have l: "revision_matches_and_live (map_of (tbl held_world) ''mylock'') 1
             (clock held_world div Second)"
    by (simp add: held_world_def world0_def lease_item_live Second_def)
  show ?thesis
    by (intro conjI held_world_facts(1) l renew_held s)
qed

section \<open>The write of AtomicPut without a previous pair\<close>

text \<open>
  Claim C1, at a failing input. Two clients call \<^verbatim>\<open>AtomicPut\<close> on the absent key
  "mylock" with a nil previous pair. The first reads and finds nothing; before
  it writes, the second runs its whole \<^verbatim>\<open>AtomicPut\<close> and is told it applied, at
  revision 1, with a lease of 20 seconds. The write of the first carries no
  condition expression, so it is applied too, at revision 2, over the live lease.
\<close>

theorem AtomicPut_absent_race:
  "upd_ConditionExpression
      (AtomicPut_input store0 (clock world0) ''mylock'' [1] None (Some \<lparr>TTL = 20 * Second\<rparr>)) = None
   \<and> fst (AtomicPut store0 (issued (consistent_get store0 ''mylock'') world0) ''mylock'' [2] None
            (Some \<lparr>TTL = 20 * Second\<rparr>))
       = (True, Some \<lparr>Key = ''mylock'', Value = [2], LastIndex = 1\<rparr>, None)
   \<and> key_is_live
         (snd (AtomicPut store0 (issued (consistent_get store0 ''mylock'') world0) ''mylock'' [2] None
            (Some \<lparr>TTL = 20 * Second\<rparr>))) ''mylock''
   \<and> fst (AtomicPut_among
            (\<lambda>w. snd (AtomicPut store0 w ''mylock'' [2] None (Some \<lparr>TTL = 20 * Second\<rparr>)))
            store0 world0 ''mylock'' [1] None (Some \<lparr>TTL = 20 * Second\<rparr>))
       = (True, Some \<lparr>Key = ''mylock'', Value = [1], LastIndex = 2\<rparr>, None)"
proof (intro conjI)
  show "upd_ConditionExpression
      (AtomicPut_input store0 (clock world0) ''mylock'' [1] None (Some \<lparr>TTL = 20 * Second\<rparr>)) = None"
    by simp
  show "fst (AtomicPut store0 (issued (consistent_get store0 ''mylock'') world0) ''mylock'' [2] None
            (Some \<lparr>TTL = 20 * Second\<rparr>))
       = (True, Some \<lparr>Key = ''mylock'', Value = [2], LastIndex = 1\<rparr>, None)"
    by code_simp
  show "key_is_live
         (snd (AtomicPut store0 (issued (consistent_get store0 ''mylock'') world0) ''mylock'' [2] None
            (Some \<lparr>TTL = 20 * Second\<rparr>))) ''mylock''"
    by code_simp
  show "fst (AtomicPut_among
            (\<lambda>w. snd (AtomicPut store0 w ''mylock'' [2] None (Some \<lparr>TTL = 20 * Second\<rparr>)))
            store0 world0 ''mylock'' [1] None (Some \<lparr>TTL = 20 * Second\<rparr>))
       = (True, Some \<lparr>Key = ''mylock'', Value = [1], LastIndex = 2\<rparr>, None)"
    by code_simp
qed

section \<open>AtomicDelete\<close>

lemma AtomicDelete_input_fields [simp]:
  "del_Key (AtomicDelete_input ddb key previous) = [partitionKey \<mapsto> AttrS key]"
  "del_ConditionExpression (AtomicDelete_input ddb key previous) =
     Some (Equals revisionAttribute '':lastRevision'')"
  "del_ExpressionAttributeValues (AtomicDelete_input ddb key previous) =
     (case previous of
        None \<Rightarrow> Map.empty
      | Some p \<Rightarrow> ['':lastRevision'' \<mapsto> AttrN (uint (LastIndex p))])"
  by (simp_all add: AtomicDelete_input_def Let_def)

lemma DeleteItem_AtomicDelete_input:
  "DeleteItemWithContext w (AtomicDelete_input ddb key previous) =
     (case next_fault w of
        Some e \<Rightarrow> (Some e, issued (DeleteItemCall (AtomicDelete_input ddb key previous)) w)
      | None \<Rightarrow>
          (case previous of
             None \<Rightarrow>
               (Some (AwsError ErrCodeValidationException),
                issued (DeleteItemCall (AtomicDelete_input ddb key previous)) w)
           | Some p \<Rightarrow>
               (if stored_revision w key = Some (AttrN (uint (LastIndex p)))
                then (None, (issued (DeleteItemCall (AtomicDelete_input ddb key previous)) w)
                              \<lparr>tbl := AList.delete key (tbl w)\<rparr>)
                else (Some (AwsError ErrCodeConditionalCheckFailedException),
                      issued (DeleteItemCall (AtomicDelete_input ddb key previous)) w))))"
  by (simp add: DeleteItemWithContext_def issue_def Let_def stored_revision_def
        split: option.splits)

lemma AtomicDelete_among_eq:
  "AtomicDelete_among env ddb w key previous =
     (case next_fault w of
        Some e \<Rightarrow> ((False, Some e), issued (consistent_get ddb key) w)
      | None \<Rightarrow>
          (if previous = None \<and> key_is_live w key
           then ((False, Some ErrKeyExists), issued (consistent_get ddb key) w)
           else
             (case next_fault (write_time env ddb key w) of
                Some e \<Rightarrow>
                  ((False, Some (translate_failed_check ErrKeyNotFound e)),
                   issued (DeleteItemCall (AtomicDelete_input ddb key previous))
                     (write_time env ddb key w))
              | None \<Rightarrow>
                  (case previous of
                     None \<Rightarrow>
                       ((False, Some (AwsError ErrCodeValidationException)),
                        issued (DeleteItemCall (AtomicDelete_input ddb key previous))
                          (write_time env ddb key w))
                   | Some p \<Rightarrow>
                       (if stored_revision (write_time env ddb key w) key
                             = Some (AttrN (uint (LastIndex p)))
                        then ((True, None),
                              (issued (DeleteItemCall (AtomicDelete_input ddb key previous))
                                 (write_time env ddb key w))
                                \<lparr>tbl := AList.delete key (tbl (write_time env ddb key w))\<rparr>)
                        else ((False, Some ErrKeyNotFound),
                              issued (DeleteItemCall (AtomicDelete_input ddb key previous))
                                (write_time env ddb key w)))))))"
  by (simp add: AtomicDelete_among_def getKey_eq DeleteItem_AtomicDelete_input
        consistent_get_def key_is_live_def translate_failed_check_def write_time_def
        split: option.splits error.splits)

text \<open>
  Claim C3, as the code has it. \<^verbatim>\<open>AtomicDelete\<close> with a previous pair at revision R,
  with neither backend call failing and whatever the others do between its
  read and its delete: it is applied, and the item removed, exactly when the
  stored revision is R at the delete, expired or not; otherwise, for another
  revision and for an absent key alike, it is not applied, returns
  \<^verbatim>\<open>ErrKeyNotFound\<close> and leaves the table as it was.
\<close>

theorem AtomicDelete_expected_revision:
  assumes "next_fault w = None"
    and "next_fault (write_time env ddb key w) = None"
  shows "(case AtomicDelete_among env ddb w key (Some p) of
            ((applied, err), w3) \<Rightarrow>
              (if stored_revision (write_time env ddb key w) key = Some (AttrN (uint (LastIndex p)))
               then applied \<and> err = None \<and> map_of (tbl w3) key = None
               else \<not> applied \<and> err = Some ErrKeyNotFound
                    \<and> tbl w3 = tbl (write_time env ddb key w)))"
  using assms by (simp add: AtomicDelete_among_eq delete_conv')

text \<open>
  The lease expired at second 1005 and still at revision 1, at second 1006:
  \<^verbatim>\<open>AtomicDelete\<close> expecting revision 1 removes it, where \<^verbatim>\<open>AtomicPut\<close> expecting
  revision 1 is refused; and on the live lease at revision 1, \<^verbatim>\<open>AtomicDelete\<close>
  expecting revision 7 returns \<^verbatim>\<open>ErrKeyNotFound\<close>, not \<^verbatim>\<open>ErrKeyModified\<close>.
\<close>

theorem AtomicDelete_expected_revision_counterexample:
  "isItemExpired lease_item (clock expired_world)
   \<and> stored_revision expired_world ''mylock'' = Some (AttrN 1)
   \<and> fst (AtomicDelete store0 expired_world ''mylock'' (Some (pair_at ''mylock'' 1))) = (True, None)
   \<and> stored_revision
         (snd (AtomicDelete store0 expired_world ''mylock'' (Some (pair_at ''mylock'' 1))))
         ''mylock'' = None
   \<and> fst (AtomicPut store0 expired_world ''mylock'' [] (Some (pair_at ''mylock'' 1)) None)
       = (False, None, Some ErrKeyModified)
   \<and> stored_revision held_world ''mylock'' = Some (AttrN 1)
   \<and> fst (AtomicDelete store0 held_world ''mylock'' (Some (pair_at ''mylock'' 7)))
       = (False, Some ErrKeyNotFound)"
proof (intro conjI)
  show "isItemExpired lease_item (clock expired_world)" by code_simp
  show "stored_revision expired_world ''mylock'' = Some (AttrN 1)" by code_simp
  show "fst (AtomicDelete store0 expired_world ''mylock'' (Some (pair_at ''mylock'' 1)))
          = (True, None)" by code_simp
  show "stored_revision
         (snd (AtomicDelete store0 expired_world ''mylock'' (Some (pair_at ''mylock'' 1))))
         ''mylock'' = None" by code_simp
  show "fst (AtomicPut store0 expired_world ''mylock'' [] (Some (pair_at ''mylock'' 1)) None)
       = (False, None, Some ErrKeyModified)" by code_simp
  show "stored_revision held_world ''mylock'' = Some (AttrN 1)" by code_simp
  show "fst (AtomicDelete store0 held_world ''mylock'' (Some (pair_at ''mylock'' 7)))
       = (False, Some ErrKeyNotFound)" by code_simp
qed

lemma expired_world_facts:
  "next_fault expired_world = None"
  "next_fault (write_time (\<lambda>w. w) store0 ''mylock'' expired_world) = None"
  "stored_revision (write_time (\<lambda>w. w) store0 ''mylock'' expired_world) ''mylock''
     = Some (AttrN (uint (LastIndex (pair_at ''mylock'' 1))))"
  by (simp_all add: expired_world_def world0_def next_fault_def write_time_def issued_def
        stored_revision_def lease_item_def pair_at_def revisionAttribute_def ttlAttribute_def)

theorem AtomicDelete_expected_revision_witness:
  "next_fault expired_world = None
   \<and> isItemExpired lease_item (clock expired_world)
   \<and> fst (AtomicDelete_among (\<lambda>w. w) store0 expired_world ''mylock'' (Some (pair_at ''mylock'' 1)))
       = (True, None)"
proof -
  have x: "isItemExpired lease_item (clock expired_world)" by code_simp
  obtain a err w3 where
    r: "AtomicDelete_among (\<lambda>w. w) store0 expired_world ''mylock'' (Some (pair_at ''mylock'' 1))
          = ((a, err), w3)"
    by (metis prod.exhaust)
  have "a \<and> err = None"
    using AtomicDelete_expected_revision
      [where w = expired_world and env = "\<lambda>w. w" and ddb = store0 and key = "''mylock''"
         and p = "pair_at ''mylock'' 1"]
    unfolding r by (simp add: expired_world_facts)
  then have "fst (AtomicDelete_among (\<lambda>w. w) store0 expired_world ''mylock''
                    (Some (pair_at ''mylock'' 1))) = (True, None)"
    by (simp add: r)
  then show ?thesis
    by (intro conjI expired_world_facts(1) x)
qed

section \<open>Unlock\<close>

lemma stored_revision_write_time_id [simp]:
  "stored_revision (write_time (\<lambda>w. w) ddb k w) k' = stored_revision w k'"
  "tbl (write_time (\<lambda>w. w) ddb k w) = tbl w"
  by (simp_all add: write_time_def stored_revision_def)

text \<open>With no \<^verbatim>\<open>holdLock\<close> goroutine to receive from \<^verbatim>\<open>unlockCh\<close>, \<^verbatim>\<open>Unlock\<close> does not get
  past its first statement.\<close>

lemma Unlock_without_holder: "\<not> holding l \<Longrightarrow> Unlock w l = (Blocked, w, l)"
  by (simp add: Unlock_def)

text \<open>
  Claim C4, as the code has it. With a \<^verbatim>\<open>holdLock\<close> goroutine running and neither
  backend call failing, \<^verbatim>\<open>Unlock\<close> stops the goroutine, which closes the lock-held
  channel. If the table still holds the revision the handle wrote last, the
  item is removed, \<^verbatim>\<open>Unlock\<close> returns nil and the handle's last pair is cleared. If
  not (the lease was taken over, or the key is gone), \<^verbatim>\<open>Unlock\<close> returns
  \<^verbatim>\<open>ErrKeyNotFound\<close> to its caller, leaves the table as it was and keeps the
  handle's last pair.
\<close>

theorem Unlock_lost_lease:
  assumes "holding l"
    and "l_last l = Some p"
    and "next_fault w = None"
    and "next_fault (write_time (\<lambda>w. w) (l_ddb l) (l_key l) w) = None"
  shows "(case Unlock w l of
            (r, w', l') \<Rightarrow>
              (if stored_revision w (l_key l) = Some (AttrN (uint (LastIndex p)))
               then r = Returns None \<and> l_last l' = None \<and> map_of (tbl w') (l_key l) = None
               else r = Returns (Some ErrKeyNotFound) \<and> l_last l' = Some p \<and> tbl w' = tbl w)
              \<and> lockHeld_closed l' \<and> \<not> holding l')"
  using assms
  by (simp add: Unlock_def AtomicDelete_def AtomicDelete_among_eq lockHeld_close_def delete_conv')

text \<open>The handle that wrote revision 1 unlocks after another holder took the
  lease to revision 2.\<close>

theorem Unlock_lost_lease_counterexample:
  "stored_revision stolen_world ''mylock'' = Some (AttrN 2)
   \<and> l_last stale_handle = Some (pair_at ''mylock'' 1)
   \<and> fst (Unlock stolen_world stale_handle) = Returns (Some ErrKeyNotFound)
   \<and> l_last (snd (snd (Unlock stolen_world stale_handle))) = Some (pair_at ''mylock'' 1)"
proof (intro conjI)
  show "stored_revision stolen_world ''mylock'' = Some (AttrN 2)" by code_simp
  show "l_last stale_handle = Some (pair_at ''mylock'' 1)" by code_simp
  show "fst (Unlock stolen_world stale_handle) = Returns (Some ErrKeyNotFound)" by code_simp
  show "l_last (snd (snd (Unlock stolen_world stale_handle))) = Some (pair_at ''mylock'' 1)"
    by code_simp
qed

lemma stale_handle_facts:
  "l_last stale_handle = Some (pair_at ''mylock'' 1)" "holding stale_handle"
  "l_key stale_handle = ''mylock''" "l_ddb stale_handle = store0"
  by (simp_all add: stale_handle_def NewLock_def)

lemma stolen_world_facts:
  "next_fault stolen_world = None"
  "next_fault (write_time (\<lambda>w. w) store0 ''mylock'' stolen_world) = None"
  "stored_revision stolen_world ''mylock'' = Some (AttrN 2)"
  by (simp_all add: stolen_world_def world0_def next_fault_def write_time_def issued_def
        stored_revision_def lease_item_def revisionAttribute_def ttlAttribute_def)

theorem Unlock_lost_lease_witness:
  "holding stale_handle
   \<and> l_last stale_handle = Some (pair_at ''mylock'' 1)
   \<and> next_fault stolen_world = None
   \<and> fst (Unlock stolen_world stale_handle) = Returns (Some ErrKeyNotFound)
   \<and> tbl (fst (snd (Unlock stolen_world stale_handle))) = tbl stolen_world
   \<and> lockHeld_closed (snd (snd (Unlock stolen_world stale_handle)))"
proof -
  obtain r w' l' where u: "Unlock stolen_world stale_handle = (r, w', l')"
    by (metis prod.exhaust)
  have "r = Returns (Some ErrKeyNotFound) \<and> tbl w' = tbl stolen_world \<and> lockHeld_closed l'"
    using Unlock_lost_lease
      [where l = stale_handle and p = "pair_at ''mylock'' 1" and w = stolen_world]
    unfolding u
    by (simp add: stale_handle_facts stolen_world_facts pair_at_def)
  then show ?thesis
    by (simp add: u stale_handle_facts stolen_world_facts(1))
qed

section \<open>Acquiring the lock\<close>

lemma tryLock_error:
  "tryLock w l = ((s, Some e), w', l') \<Longrightarrow>
     e \<noteq> ErrKeyNotFound \<and> e \<noteq> ErrKeyModified \<and> e \<noteq> ErrKeyExists"
  by (auto simp: tryLock_def split: prod.splits option.splits if_splits)

lemma Lock_select_error:
  "fst (Lock_select w l evs) = Returns (Some e) \<Longrightarrow>
     e \<noteq> ErrKeyNotFound \<and> e \<noteq> ErrKeyModified \<and> e \<noteq> ErrKeyExists"
proof (induction evs arbitrary: w l)
  case Nil
  then show ?case by simp
next
  case (Cons ev evs)
  obtain env c where ev: "ev = (env, c)" by (cases ev)
  show ?case
  proof (cases c)
    case LockCtxDone
    with Cons.prems ev show ?thesis by auto
  next
    case LockTickerC
    obtain s r w' l' where t: "tryLock (env w) l = ((s, r), w', l')"
      by (metis prod.exhaust)
    show ?thesis
    proof (cases r)
      case (Some e')
      with Cons.prems ev LockTickerC t have "e = e'" by simp
      with tryLock_error t Some show ?thesis by blast
    next
      case None
      show ?thesis
      proof (cases s)
        case True
        with Cons.prems ev LockTickerC t None show ?thesis by simp
      next
        case False
        with Cons.prems ev LockTickerC t None
        have "fst (Lock_select w' l' evs) = Returns (Some e)" by simp
        then show ?thesis by (rule Cons.IH)
      qed
    qed
  qed
qed

lemma Lock_error:
  "fst (Lock w l evs) = Returns (Some e) \<Longrightarrow>
     e \<noteq> ErrKeyNotFound \<and> e \<noteq> ErrKeyModified \<and> e \<noteq> ErrKeyExists"
proof -
  assume a: "fst (Lock w l evs) = Returns (Some e)"
  obtain s r w' l' where t: "tryLock w l = ((s, r), w', l')"
    by (metis prod.exhaust)
  show ?thesis
  proof (cases r)
    case (Some e')
    with a t have "e = e'" by (simp add: Lock_def)
    with tryLock_error t Some show ?thesis by blast
  next
    case None
    show ?thesis
    proof (cases s)
      case True
      with a t None show ?thesis by (simp add: Lock_def)
    next
      case False
      with a t None
      have "fst (Lock_select (arm (NewTicker (3 * Second)) w') l' evs) = Returns (Some e)"
        by (simp add: Lock_def)
      then show ?thesis by (rule Lock_select_error)
    qed
  qed
qed

text \<open>
  Claim C5. \<^verbatim>\<open>Lock\<close> never returns \<^verbatim>\<open>ErrKeyExists\<close>, \<^verbatim>\<open>ErrKeyModified\<close> or
  \<^verbatim>\<open>ErrKeyNotFound\<close>. When the conditional put of the first attempt fails with one
  of them, \<^verbatim>\<open>tryLock\<close> reports "not acquired" without error and \<^verbatim>\<open>Lock\<close> goes on to
  wait on a ticker of 3 seconds; at each tick the attempt is made again, and the
  same errors make it wait for the next tick. Any other error of the conditional
  put, at the first attempt or at a tick, is returned by \<^verbatim>\<open>Lock\<close> at once, whatever
  wake-ups would follow.
\<close>

theorem Lock_recovers_conflicts:
  "(\<forall>e. fst (Lock w l evs) = Returns (Some e) \<longrightarrow> \<not> recovered e)
   \<and> (\<forall>a kv e w'.
         AtomicPut (l_ddb l) w (l_key l) (l_value l) (l_last l) (Some \<lparr>TTL = l_ttl l\<rparr>)
           = ((a, kv, Some e), w')
         \<longrightarrow> (if recovered e
              then tryLock w l = ((False, None), w', l)
                 \<and> Lock w l evs = Lock_select (arm (NewTicker (3 * Second)) w') l evs
              else tryLock w l = ((False, Some e), w', l)
                 \<and> Lock w l evs = (Returns (Some e), w', l)))
   \<and> (\<forall>env a kv e w'.
         AtomicPut (l_ddb l) (env w) (l_key l) (l_value l) (l_last l) (Some \<lparr>TTL = l_ttl l\<rparr>)
           = ((a, kv, Some e), w')
         \<longrightarrow> Lock_select w l ((env, LockTickerC) # evs) =
               (if recovered e then Lock_select w' l evs else (Returns (Some e), w', l)))"
proof (intro conjI allI impI)
  fix e assume "fst (Lock w l evs) = Returns (Some e)"
  from Lock_error [OF this] show "\<not> recovered e" by (simp add: recovered_def)
next
  fix a kv e w'
  assume "AtomicPut (l_ddb l) w (l_key l) (l_value l) (l_last l) (Some \<lparr>TTL = l_ttl l\<rparr>)
           = ((a, kv, Some e), w')"
  then show "if recovered e
              then tryLock w l = ((False, None), w', l)
                 \<and> Lock w l evs = Lock_select (arm (NewTicker (3 * Second)) w') l evs
              else tryLock w l = ((False, Some e), w', l)
                 \<and> Lock w l evs = (Returns (Some e), w', l)"
    by (auto simp: tryLock_def Lock_def recovered_def)
next
  fix env a kv e w'
  assume "AtomicPut (l_ddb l) (env w) (l_key l) (l_value l) (l_last l) (Some \<lparr>TTL = l_ttl l\<rparr>)
           = ((a, kv, Some e), w')"
  then show "Lock_select w l ((env, LockTickerC) # evs) =
               (if recovered e then Lock_select w' l evs else (Returns (Some e), w', l))"
    by (auto simp: tryLock_def recovered_def)
qed

lemma first_try_conflict:
  "fst (AtomicPut store0 held_world ''mylock'' [] None (Some \<lparr>TTL = 20 * Second\<rparr>))
     = (False, None, Some ErrKeyExists)"
  by code_simp

lemma acquire_after_expiry:
  "fst (Lock held_world fresh_handle [(at_second 1003, LockTickerC), (at_second 1006, LockTickerC)])
     = Returns None"
  by code_simp

lemma acquire_cancelled:
  "fst (Lock held_world fresh_handle [(at_second 1003, LockTickerC), (at_second 1004, LockCtxDone)])
     = Returns (Some ErrLockAcquireCancelled)"
  by code_simp

lemma fresh_handle_facts:
  "l_ddb fresh_handle = store0" "l_key fresh_handle = ''mylock''" "l_value fresh_handle = []"
  "l_last fresh_handle = None" "l_ttl fresh_handle = 20 * Second"
  by (simp_all add: fresh_handle_def NewLock_def defaultLockTTL_def)

text \<open>The key is held until second 1005: the first attempt at second 1000 and the
  retry at second 1003 meet \<^verbatim>\<open>ErrKeyExists\<close>, the retry at second 1006 acquires.\<close>

theorem Lock_recovers_conflicts_witness:
  "fst (AtomicPut store0 held_world ''mylock'' [] None (Some \<lparr>TTL = 20 * Second\<rparr>))
     = (False, None, Some ErrKeyExists)
   \<and> recovered ErrKeyExists
   \<and> fst (tryLock held_world fresh_handle) = (False, None)
   \<and> fst (Lock held_world fresh_handle
            [(at_second 1003, LockTickerC), (at_second 1006, LockTickerC)]) = Returns None"
proof -
  obtain w' where
    r: "AtomicPut store0 held_world ''mylock'' [] None (Some \<lparr>TTL = 20 * Second\<rparr>)
          = ((False, None, Some ErrKeyExists), w')"
    using first_try_conflict by (metis prod.collapse)
  have rec: "recovered ErrKeyExists" by (simp add: recovered_def)
  have r': "AtomicPut (l_ddb fresh_handle) held_world (l_key fresh_handle) (l_value fresh_handle)
              (l_last fresh_handle) (Some \<lparr>TTL = l_ttl fresh_handle\<rparr>)
            = ((False, None, Some ErrKeyExists), w')"
    using r by (simp add: fresh_handle_facts)
  have "tryLock held_world fresh_handle = ((False, None), w', fresh_handle)"
    using Lock_recovers_conflicts
      [where l = fresh_handle and w = held_world and evs = "[]",
       THEN conjunct2, THEN conjunct1, rule_format, OF r'] rec
    by simp
  then have t: "fst (tryLock held_world fresh_handle) = (False, None)" by simp
  show ?thesis
    by (intro conjI first_try_conflict rec t acquire_after_expiry)
qed

section \<open>DeleteTree and its retries\<close>

lemma BatchWriteItem_calls:
  "calls (snd (BatchWriteItemWithContext w inp)) = calls w @ [BatchWriteItemCall inp]"
  by (simp add: BatchWriteItemWithContext_def issue_def Let_def split: option.splits)

lemma retry_returns_by_timeout:
  "\<exists>r. fst (retryDeleteTree_select ddb w pending
               (map (\<lambda>e. (e, TickerC)) envs @ (env, TimeoutC) # rest)) = Returns r"
proof (induction envs arbitrary: w pending)
  case Nil
  then show ?case by simp
next
  case (Cons e envs)
  obtain res w' where b: "BatchWriteItemWithContext (e w) \<lparr>RequestItems = pending\<rparr> = (res, w')"
    by (metis prod.exhaust)
  show ?case
  proof (cases res)
    case (Inl err)
    with b show ?thesis by simp
  next
    case (Inr out)
    show ?thesis
    proof (cases "UnprocessedItems out = []")
      case True
      with b Inr show ?thesis by simp
    next
      case False
      with b Inr Cons.IH [of w' "UnprocessedItems out"] show ?thesis by simp
    qed
  qed
qed

text \<open>
  Claim C6. When the first batch write leaves nothing unprocessed,
  \<^verbatim>\<open>retryDeleteTree\<close> returns nil; otherwise it arms a timeout of
  \<^verbatim>\<open>DeleteTreeTimeoutSeconds\<close> = 30 seconds and a ticker of 1 second and waits. At
  each tick it sends one batch write whose request items are exactly the
  unprocessed items of the previous answer; an answer with no unprocessed items
  makes it return nil at once, any other makes it wait again with that answer's
  unprocessed items. When the timeout is taken it returns
  \<^verbatim>\<open>ErrDeleteTreeTimeout\<close> without another request; so after any number of ticks
  followed by the timeout the loop has returned.
\<close>

theorem retryDeleteTree_protocol:
  "(\<forall>out w'. BatchWriteItemWithContext w \<lparr>RequestItems = items\<rparr> = (Inr out, w') \<longrightarrow>
      retryDeleteTree ddb w items evs =
        (if UnprocessedItems out = [] then (Returns None, w')
         else retryDeleteTree_select ddb
                (arm (NewTicker (1 * Second)) (arm (Sleep (DeleteTreeTimeoutSeconds * Second)) w'))
                (UnprocessedItems out) evs))
   \<and> DeleteTreeTimeoutSeconds * Second = 30 * 1000000000
   \<and> (\<forall>out w'. BatchWriteItemWithContext (env w) \<lparr>RequestItems = pending\<rparr> = (Inr out, w') \<longrightarrow>
        calls w' = calls (env w) @ [BatchWriteItemCall \<lparr>RequestItems = pending\<rparr>]
        \<and> retryDeleteTree_select ddb w pending ((env, TickerC) # evs) =
            (if UnprocessedItems out = [] then (Returns None, w')
             else retryDeleteTree_select ddb w' (UnprocessedItems out) evs))
   \<and> retryDeleteTree_select ddb w pending ((env, TimeoutC) # evs) =
        (Returns (Some ErrDeleteTreeTimeout), env w)
   \<and> (\<exists>r. fst (retryDeleteTree_select ddb w pending
                   (map (\<lambda>e. (e, TickerC)) envs @ (env, TimeoutC) # evs)) = Returns r)"
proof (intro conjI allI impI)
  fix out w'
  assume "BatchWriteItemWithContext w \<lparr>RequestItems = items\<rparr> = (Inr out, w')"
  then show "retryDeleteTree ddb w items evs =
        (if UnprocessedItems out = [] then (Returns None, w')
         else retryDeleteTree_select ddb
                (arm (NewTicker (1 * Second)) (arm (Sleep (DeleteTreeTimeoutSeconds * Second)) w'))
                (UnprocessedItems out) evs)"
    by (simp add: retryDeleteTree_def)
next
  show "DeleteTreeTimeoutSeconds * Second = 30 * 1000000000"
    by (simp add: DeleteTreeTimeoutSeconds_def Second_def)
next
  fix out w'
  assume a: "BatchWriteItemWithContext (env w) \<lparr>RequestItems = pending\<rparr> = (Inr out, w')"
  from BatchWriteItem_calls [of "env w" "\<lparr>RequestItems = pending\<rparr>"] a
  show "calls w' = calls (env w) @ [BatchWriteItemCall \<lparr>RequestItems = pending\<rparr>]"
    by simp
  from a show "retryDeleteTree_select ddb w pending ((env, TickerC) # evs) =
            (if UnprocessedItems out = [] then (Returns None, w')
             else retryDeleteTree_select ddb w' (UnprocessedItems out) evs)"
    by simp
next
  show "retryDeleteTree_select ddb w pending ((env, TimeoutC) # evs) =
        (Returns (Some ErrDeleteTreeTimeout), env w)"
    by simp
next
  show "\<exists>r. fst (retryDeleteTree_select ddb w pending
                   (map (\<lambda>e. (e, TickerC)) envs @ (env, TimeoutC) # evs)) = Returns r"
    by (rule retry_returns_by_timeout)
qed

lemma five_drains:
  "fst (retryDeleteTree store0 five_world five_requests [(at_second 1001, TickerC)]) = Returns None"
  "map batch_keys
     (calls (snd (retryDeleteTree store0 five_world five_requests [(at_second 1001, TickerC)])))
     = [[Some ''a'', Some ''b'', Some ''c'', Some ''d'', Some ''e''], [], [],
        [Some ''d'', Some ''e'']]"
  "map timer
     (calls (snd (retryDeleteTree store0 five_world five_requests [(at_second 1001, TickerC)])))
     = [None, Some (30 * Second), Some (1 * Second), None]"
  "map fst (tbl (snd (retryDeleteTree store0 five_world five_requests [(at_second 1001, TickerC)])))
     = []"
  by code_simp+

lemma stuck_times_out:
  "fst (retryDeleteTree store0 stuck_world five_requests
          [(at_second 1001, TickerC), (at_second 1002, TickerC), (at_second 1030, TimeoutC)])
     = Returns (Some ErrDeleteTreeTimeout)"
  by code_simp

lemma five_first_batch:
  "map request_key
     (concat (map snd (UnprocessedItems
        (projr (fst (BatchWriteItemWithContext five_world \<lparr>RequestItems = five_requests\<rparr>))))))
     = [Some ''d'', Some ''e'']"
  "isl (fst (BatchWriteItemWithContext five_world \<lparr>RequestItems = five_requests\<rparr>)) = False"
  by code_simp+

text \<open>Five keys, two left unprocessed by the first batch and none by the second:
  success at the first tick, after requests for five and then for two keys. And
  the timeout case taken while the five are pending.\<close>

theorem retryDeleteTree_protocol_witness:
  "\<not> isl (fst (BatchWriteItemWithContext five_world \<lparr>RequestItems = five_requests\<rparr>))
   \<and> map request_key
        (concat (map snd (UnprocessedItems
           (projr (fst (BatchWriteItemWithContext five_world \<lparr>RequestItems = five_requests\<rparr>))))))
       = [Some ''d'', Some ''e'']
   \<and> fst (retryDeleteTree store0 five_world five_requests [(at_second 1001, TickerC)])
       = Returns None
   \<and> fst (retryDeleteTree_select store0 five_world five_requests [(at_second 1030, TimeoutC)])
       = Returns (Some ErrDeleteTreeTimeout)"
proof -
  have "retryDeleteTree_select store0 five_world five_requests [(at_second 1030, TimeoutC)] =
        (Returns (Some ErrDeleteTreeTimeout), at_second 1030 five_world)"
    using retryDeleteTree_protocol
      [where ddb = store0 and w = five_world and pending = five_requests
         and items = five_requests and env = "at_second 1030" and evs = "[]",
       THEN conjunct2, THEN conjunct2, THEN conjunct2, THEN conjunct1] .
  then have t: "fst (retryDeleteTree_select store0 five_world five_requests
                       [(at_second 1030, TimeoutC)]) = Returns (Some ErrDeleteTreeTimeout)"
    by simp
  show ?thesis
    using five_first_batch(2) by (intro conjI five_first_batch(1) five_drains(1) t) simp
qed

section \<open>Holding the lock\<close>

lemma written_ttl:
  "0 < d \<Longrightarrow> written now val (Some \<lparr>TTL = d\<rparr>) it ttlAttribute = Some (AttrN ((now + d) div Second))"
  by (simp add: written_def Let_def)

text \<open>An \<^verbatim>\<open>AtomicPut\<close> that returns no error has passed every test and has written.\<close>

lemma AtomicPut_among_no_error:
  assumes "AtomicPut_among env ddb w key val previous opts = ((a, kv, None), w')"
  shows "next_fault w = None \<and> next_fault (write_time env ddb key w) = None
       \<and> write_allowed (map_of (tbl (write_time env ddb key w)) key) previous
            (clock (write_time env ddb key w))
       \<and> a
       \<and> decodeItem (written (clock (write_time env ddb key w)) val opts
                        (base_item (write_time env ddb key w) key)) = Inr (the kv)
       \<and> kv \<noteq> None
       \<and> w' = (issued (UpdateItemCall
                          (AtomicPut_input ddb (clock (write_time env ddb key w)) key val
                             previous opts))
                  (write_time env ddb key w))
                 \<lparr>tbl := AList.update key
                            (written (clock (write_time env ddb key w)) val opts
                               (base_item (write_time env ddb key w) key))
                            (tbl (write_time env ddb key w))\<rparr>"
proof -
  have 1: "next_fault w = None"
    using assms by (cases "next_fault w") (simp_all add: AtomicPut_among_eq)
  have 2: "\<not> (previous = None \<and> key_is_live w key)"
    using assms 1 by (auto simp add: AtomicPut_among_eq)
  have 3: "next_fault (write_time env ddb key w) = None"
    using assms 1 2 by (cases "next_fault (write_time env ddb key w)") (simp_all add: AtomicPut_among_eq)
  have 4: "write_allowed (map_of (tbl (write_time env ddb key w)) key) previous
            (clock (write_time env ddb key w))"
    using assms 1 2 3 by (auto simp add: AtomicPut_among_eq split: if_splits)
  have 5: "\<forall>s. base_item (write_time env ddb key w) key revisionAttribute \<noteq> Some (AttrS s)"
    using assms 1 2 3 4 by (auto simp add: AtomicPut_among_eq split: if_splits)
  from AtomicPut_among_applied [OF 1 3 2 4 5, of val opts] assms
  show ?thesis
    using 1 3 4
    by (cases "decodeItem (written (clock (write_time env ddb key w)) val opts
                        (base_item (write_time env ddb key w) key))") auto
qed

lemma write_time_id_fields [simp]:
  "clock (write_time (\<lambda>w. w) ddb k w) = clock w"
  "calls (write_time (\<lambda>w. w) ddb k w) = calls w @ [consistent_get ddb k]"
  by (simp_all add: write_time_def)

lemma hold_failure:
  assumes "AtomicPut (l_ddb l) w (l_key l) (l_value l) (l_last l) (Some \<lparr>TTL = l_ttl l\<rparr>)
             = ((a, kv, Some e), w')"
  shows "hold w l = (Some e, w', l)"
  using assms by (simp add: hold_def)

lemma hold_success:
  assumes "l_last l = Some p" and "0 < l_ttl l"
    and "AtomicPut (l_ddb l) w (l_key l) (l_value l) (l_last l) (Some \<lparr>TTL = l_ttl l\<rparr>)
             = ((a, kv, None), w')"
  shows "hold w l = (None, w', l\<lparr>l_last := kv\<rparr>)
       \<and> map_option LastIndex kv = Some (LastIndex p + 1)
       \<and> revision_matches_and_live (map_of (tbl w) (l_key l)) (LastIndex p) (clock w div Second)
       \<and> (case map_of (tbl w') (l_key l) of
            None \<Rightarrow> False
          | Some it \<Rightarrow>
              it ttlAttribute = Some (AttrN ((clock w + l_ttl l) div Second))
              \<and> it revisionAttribute = Some (AttrN (uint (LastIndex p) + 1)))
       \<and> calls w' = calls w @
            [consistent_get (l_ddb l) (l_key l),
             UpdateItemCall (AtomicPut_input (l_ddb l) (clock w) (l_key l) (l_value l) (Some p)
                               (Some \<lparr>TTL = l_ttl l\<rparr>))]"
proof -
  have h: "hold w l = (None, w', l\<lparr>l_last := kv\<rparr>)"
    using assms(3) by (simp add: hold_def)
  note ne = AtomicPut_among_no_error [OF assms(3) [unfolded AtomicPut_def assms(1)]]
  from ne have wa: "revision_matches_and_live (map_of (tbl w) (l_key l)) (LastIndex p)
                      (clock w div Second)"
    by (simp add: write_allowed_def)
  from live_revision [OF wa] obtain it where
    it: "map_of (tbl w) (l_key l) = Some it"
        "it revisionAttribute = Some (AttrN (uint (LastIndex p)))"
    by (elim exE conjE)
  have b: "base_item (write_time (\<lambda>w. w) (l_ddb l) (l_key l) w) (l_key l) = it"
    by (simp add: base_item_def it)
  define new where "new = written (clock w) (l_value l) (Some \<lparr>TTL = l_ttl l\<rparr>) it"
  have nr: "new revisionAttribute = Some (AttrN (uint (LastIndex p) + 1))"
    by (simp add: new_def written_revision it)
  have nt: "new ttlAttribute = Some (AttrN ((clock w + l_ttl l) div Second))"
    by (simp add: new_def written_ttl [OF assms(2)])
  from ne have d: "decodeItem new = Inr (the kv)" and k: "kv \<noteq> None"
    by (simp_all add: b new_def)
  from decodeItem_LastIndex [OF d nr] k
  have li: "map_option LastIndex kv = Some (LastIndex p + 1)"
    by (cases kv) simp_all
  from ne have w': "w' = (issued (UpdateItemCall
                          (AtomicPut_input (l_ddb l) (clock w) (l_key l) (l_value l)
                             (Some p) (Some \<lparr>TTL = l_ttl l\<rparr>)))
                  (write_time (\<lambda>w. w) (l_ddb l) (l_key l) w))
                 \<lparr>tbl := AList.update (l_key l) new (tbl w)\<rparr>"
    by (simp add: b new_def)
  have st: "map_of (tbl w') (l_key l) = Some new"
    by (simp add: w' update_conv')
  have cl: "calls w' = calls w @
            [consistent_get (l_ddb l) (l_key l),
             UpdateItemCall (AtomicPut_input (l_ddb l) (clock w) (l_key l) (l_value l) (Some p)
                               (Some \<lparr>TTL = l_ttl l\<rparr>))]"
    by (simp add: w')
  show ?thesis
    by (intro conjI h li wa cl) (simp add: st nr nt)
qed

text \<open>
  Claim C7. For a handle that holds a last pair p and has a positive TTL:
  \<^verbatim>\<open>holdLock\<close> waits on a ticker of a third of the TTL. At each tick it calls
  \<^verbatim>\<open>AtomicPut\<close> with the handle's key and value, the last pair as the expected one
  and the TTL. If that returns no error, the stored revision was p's, the item
  now carries p's revision plus one and the expiration clock + TTL (in
  seconds), the returned pair becomes the handle's last pair and the loop
  waits for the next wake-up. If it returns any error, the loop ends at once,
  whatever wake-ups would follow, and the lock-held channel is closed.
\<close>

theorem holdLock_renewal:
  assumes "l_last l = Some p" and "0 < l_ttl l"
  shows "(3 \<le> l_ttl l \<longrightarrow>
            holdLock w l evs = holdLock_select (arm (NewTicker (l_ttl l div 3)) w) l evs)
    \<and> (case AtomicPut (l_ddb l) (env w) (l_key l) (l_value l) (l_last l) (Some \<lparr>TTL = l_ttl l\<rparr>) of
         ((a, kv, err), w') \<Rightarrow>
           (case err of
              Some e \<Rightarrow>
                holdLock_select w l ((env, HeartbeatC) # evs) = (Returns (), w', lockHeld_close l)
                \<and> lockHeld_closed (lockHeld_close l) \<and> \<not> holding (lockHeld_close l)
            | None \<Rightarrow>
                holdLock_select w l ((env, HeartbeatC) # evs) =
                  holdLock_select w' (l\<lparr>l_last := kv\<rparr>) evs
                \<and> map_option LastIndex kv = Some (LastIndex p + 1)
                \<and> revision_matches_and_live (map_of (tbl (env w)) (l_key l)) (LastIndex p)
                      (clock (env w) div Second)
                \<and> (case map_of (tbl w') (l_key l) of
                     None \<Rightarrow> False
                   | Some it \<Rightarrow>
                       it ttlAttribute = Some (AttrN ((clock (env w) + l_ttl l) div Second))
                       \<and> it revisionAttribute = Some (AttrN (uint (LastIndex p) + 1)))
                \<and> calls w' = calls (env w) @
                     [consistent_get (l_ddb l) (l_key l),
                      UpdateItemCall
                        (AtomicPut_input (l_ddb l) (clock (env w)) (l_key l) (l_value l) (Some p)
                           (Some \<lparr>TTL = l_ttl l\<rparr>))]))"
proof (intro conjI impI)
  assume "3 \<le> l_ttl l"
  then have "quo3 (l_ttl l) = l_ttl l div 3" "0 < l_ttl l div 3"
    by (simp_all add: quo3_def)
  then show "holdLock w l evs = holdLock_select (arm (NewTicker (l_ttl l div 3)) w) l evs"
    by (simp add: holdLock_def)
next
  obtain a kv err w' where
    r: "AtomicPut (l_ddb l) (env w) (l_key l) (l_value l) (l_last l) (Some \<lparr>TTL = l_ttl l\<rparr>)
          = ((a, kv, err), w')"
    by (metis prod.exhaust)
  show "case AtomicPut (l_ddb l) (env w) (l_key l) (l_value l) (l_last l) (Some \<lparr>TTL = l_ttl l\<rparr>) of
         ((a, kv, err), w') \<Rightarrow>
           (case err of
              Some e \<Rightarrow>
                holdLock_select w l ((env, HeartbeatC) # evs) = (Returns (), w', lockHeld_close l)
                \<and> lockHeld_closed (lockHeld_close l) \<and> \<not> holding (lockHeld_close l)
            | None \<Rightarrow>
                holdLock_select w l ((env, HeartbeatC) # evs) =
                  holdLock_select w' (l\<lparr>l_last := kv\<rparr>) evs
                \<and> map_option LastIndex kv = Some (LastIndex p + 1)
                \<and> revision_matches_and_live (map_of (tbl (env w)) (l_key l)) (LastIndex p)
                      (clock (env w) div Second)
                \<and> (case map_of (tbl w') (l_key l) of
                     None \<Rightarrow> False
                   | Some it \<Rightarrow>
                       it ttlAttribute = Some (AttrN ((clock (env w) + l_ttl l) div Second))
                       \<and> it revisionAttribute = Some (AttrN (uint (LastIndex p) + 1)))
                \<and> calls w' = calls (env w) @
                     [consistent_get (l_ddb l) (l_key l),
                      UpdateItemCall
                        (AtomicPut_input (l_ddb l) (clock (env w)) (l_key l) (l_value l) (Some p)
                           (Some \<lparr>TTL = l_ttl l\<rparr>))])"
  proof (cases err)
    case (Some e)
    with hold_failure [OF r [unfolded Some]] show ?thesis
      unfolding r by (simp add: lockHeld_close_def)
  next
    case None
    from hold_success [OF assms r [unfolded None]] show ?thesis
      unfolding r None by simp
  qed
qed

text \<open>The handle that wrote revision 1 renews at second 1004, and the same handle
  meets, at second 1007, a lease that another holder took to revision 2.\<close>

lemma renewal_at_1004:
  "fst (holdLock held_world stale_handle [(at_second 1004, HeartbeatC)]) = Blocked"
  "l_last (snd (snd (holdLock held_world stale_handle [(at_second 1004, HeartbeatC)])))
     = Some \<lparr>Key = ''mylock'', Value = [], LastIndex = 2\<rparr>"
  "map timer (calls (fst (snd (holdLock held_world stale_handle [(at_second 1004, HeartbeatC)]))))
     = [Some 6666666666, None, None]"
  by code_simp+

lemma renewal_lost:
  "fst (holdLock stolen_world stale_handle
          [(at_second 1007, HeartbeatC), (at_second 1014, HeartbeatC)]) = Returns ()"
  "lockHeld_closed (snd (snd (holdLock stolen_world stale_handle
          [(at_second 1007, HeartbeatC), (at_second 1014, HeartbeatC)])))"
  "length (calls (fst (snd (holdLock stolen_world stale_handle
          [(at_second 1007, HeartbeatC), (at_second 1014, HeartbeatC)])))) = 3"
  by code_simp+

lemma stale_handle_ttl:
  "l_ttl stale_handle = 20 * Second" "l_value stale_handle = []"
  by (simp_all add: stale_handle_def NewLock_def defaultLockTTL_def)

theorem holdLock_renewal_witness:
  "l_last stale_handle = Some (pair_at ''mylock'' 1) \<and> 0 < l_ttl stale_handle
   \<and> holdLock held_world stale_handle [(at_second 1004, HeartbeatC)] =
       holdLock_select (arm (NewTicker (l_ttl stale_handle div 3)) held_world) stale_handle
         [(at_second 1004, HeartbeatC)]
   \<and> l_ttl stale_handle div 3 = 6666666666
   \<and> l_last (snd (snd (holdLock held_world stale_handle [(at_second 1004, HeartbeatC)])))
       = Some \<lparr>Key = ''mylock'', Value = [], LastIndex = 2\<rparr>
   \<and> fst (holdLock stolen_world stale_handle
            [(at_second 1007, HeartbeatC), (at_second 1014, HeartbeatC)]) = Returns ()
   \<and> lockHeld_closed (snd (snd (holdLock stolen_world stale_handle
            [(at_second 1007, HeartbeatC), (at_second 1014, HeartbeatC)])))"
proof -
  have p: "0 < l_ttl stale_handle" "3 \<le> l_ttl stale_handle"
    by (simp_all add: stale_handle_ttl Second_def)
  have "holdLock held_world stale_handle [(at_second 1004, HeartbeatC)] =
       holdLock_select (arm (NewTicker (l_ttl stale_handle div 3)) held_world) stale_handle
         [(at_second 1004, HeartbeatC)]"
    using holdLock_renewal
      [where l = stale_handle and p = "pair_at ''mylock'' 1" and w = held_world
         and evs = "[(at_second 1004, HeartbeatC)]" and env = "\<lambda>w. w",
       OF stale_handle_facts(1) p(1), THEN conjunct1] p(2)
    by simp
  moreover have "l_ttl stale_handle div 3 = 6666666666"
    by (simp add: stale_handle_ttl Second_def)
  ultimately show ?thesis
    by (intro conjI stale_handle_facts(1) p(1) renewal_at_1004(2) renewal_lost(1) renewal_lost(2))
qed

section \<open>Revisions\<close>

lemma Put_input_apply:
  "apply_actions (upd_ExpressionAttributeValues (Put_input ddb now key val opts))
       (upd_UpdateExpression (Put_input ddb now key val opts)) it =
     (case it revisionAttribute of
        Some (AttrS s) \<Rightarrow> None
      | _ \<Rightarrow> Some (written now val opts it))"
  apply (cases opts; cases "val = []")
  apply (simp_all add: Put_input_def updateExpression_def Let_def written_def
            split: AttributeValue.splits option.splits)
  done

lemma Put_input_fields [simp]:
  "upd_Key (Put_input ddb now key val opts) = [partitionKey \<mapsto> AttrS key]"
  "upd_ReturnValues (Put_input ddb now key val opts) = None"
  "upd_ConditionExpression (Put_input ddb now key val opts) = None"
  by (simp_all add: Put_input_def Let_def split: prod.splits)

lemma Put_eq:
  "Put ddb w key val opts =
     (case next_fault w of
        Some e \<Rightarrow> (Some e, issued (UpdateItemCall (Put_input ddb (clock w) key val opts)) w)
      | None \<Rightarrow>
          (case base_item w key revisionAttribute of
             Some (AttrS s) \<Rightarrow>
               (Some (AwsError ErrCodeValidationException),
                issued (UpdateItemCall (Put_input ddb (clock w) key val opts)) w)
           | _ \<Rightarrow>
               (None,
                (issued (UpdateItemCall (Put_input ddb (clock w) key val opts)) w)
                  \<lparr>tbl := AList.update key (written (clock w) val opts (base_item w key))
                             (tbl w)\<rparr>)))"
  by (simp add: Put_def UpdateItemWithContext_def issue_def Let_def Put_input_apply base_item_def
        split: option.splits AttributeValue.splits)

lemma base_item_revision: "base_item w k revisionAttribute = stored_revision w k"
  by (simp add: base_item_def stored_revision_def split: option.splits)

lemma revision_after_write:
  assumes "\<forall>s. stored_revision w k \<noteq> Some (AttrS s)"
    and "tbl w' = AList.update k (written now val opts (base_item w k)) (tbl w)"
  shows "stored_revision w' k = Some (AttrN (revision_of w k + 1))"
    and "revision_of w' k = revision_of w k + 1"
proof -
  show 1: "stored_revision w' k = Some (AttrN (revision_of w k + 1))"
    using assms
    by (simp add: stored_revision_def [of w'] update_conv' written_revision base_item_revision
          revision_of_def split: option.splits AttributeValue.splits)
  then show "revision_of w' k = revision_of w k + 1"
    by (simp add: revision_of_def [of w'])
qed

lemma revision_unchanged:
  "tbl w' = tbl w \<Longrightarrow> revision_of w' k = revision_of w k"
  by (simp add: revision_of_def stored_revision_def)

lemma base_item_write_time_id [simp]:
  "base_item (write_time (\<lambda>w. w) ddb k w) k' = base_item w k'"
  by (simp add: base_item_def)

text \<open>An \<^verbatim>\<open>AtomicPut\<close> either leaves the table alone and reports no success, or writes.\<close>

lemma AtomicPut_table:
  assumes "AtomicPut ddb w key val previous opts = ((a, kv, err), w')"
  shows "(\<not> a \<and> tbl w' = tbl w)
       \<or> ((\<forall>s. stored_revision w key \<noteq> Some (AttrS s))
           \<and> tbl w' = AList.update key (written (clock w) val opts (base_item w key)) (tbl w))"
proof (cases "next_fault w")
  case (Some e)
  with assms show ?thesis by (auto simp: AtomicPut_def AtomicPut_among_eq)
next
  case nf: None
  show ?thesis
  proof (cases "previous = None \<and> key_is_live w key")
    case True
    with assms nf show ?thesis by (auto simp: AtomicPut_def AtomicPut_among_eq)
  next
    case nl: False
    show ?thesis
    proof (cases "next_fault (write_time (\<lambda>w. w) ddb key w)")
      case (Some e)
      with assms nf nl show ?thesis by (auto simp: AtomicPut_def AtomicPut_among_eq)
    next
      case nf2: None
      show ?thesis
      proof (cases "write_allowed (map_of (tbl w) key) previous (clock w)")
        case False
        with assms nf nl nf2 show ?thesis by (auto simp: AtomicPut_def AtomicPut_among_eq)
      next
        case wa: True
        show ?thesis
        proof (cases "\<exists>s. stored_revision w key = Some (AttrS s)")
          case True
          with assms nf nl nf2 wa show ?thesis
            by (auto simp: AtomicPut_def AtomicPut_among_eq base_item_revision)
        next
          case False
          then have ns: "\<forall>s. base_item (write_time (\<lambda>w. w) ddb key w) key revisionAttribute
                            \<noteq> Some (AttrS s)"
            by (simp add: base_item_revision)
          have wa': "write_allowed (map_of (tbl (write_time (\<lambda>w. w) ddb key w)) key) previous
                       (clock (write_time (\<lambda>w. w) ddb key w))"
            using wa by simp
          from AtomicPut_among_applied [OF nf nf2 nl wa' ns, of val opts] assms
          have "tbl w' = AList.update key (written (clock w) val opts (base_item w key)) (tbl w)"
            by (auto simp: AtomicPut_def)
          with False show ?thesis by simp
        qed
      qed
    qed
  qed
qed

lemma Put_table:
  assumes "Put ddb w key val opts = (err, w')"
  shows "(err \<noteq> None \<and> tbl w' = tbl w)
       \<or> ((\<forall>s. stored_revision w key \<noteq> Some (AttrS s))
           \<and> tbl w' = AList.update key (written (clock w) val opts (base_item w key)) (tbl w))"
proof (cases "next_fault w")
  case (Some e)
  have "Put ddb w key val opts =
          (Some e, issued (UpdateItemCall (Put_input ddb (clock w) key val opts)) w)"
    by (simp add: Put_eq Some)
  with assms have "err = Some e" "tbl w' = tbl w" by auto
  then show ?thesis by simp
next
  case nf: None
  show ?thesis
  proof (cases "\<exists>s. stored_revision w key = Some (AttrS s)")
    case True
    then obtain s where "base_item w key revisionAttribute = Some (AttrS s)"
      by (auto simp: base_item_revision)
    then have "Put ddb w key val opts =
          (Some (AwsError ErrCodeValidationException),
           issued (UpdateItemCall (Put_input ddb (clock w) key val opts)) w)"
      by (simp add: Put_eq nf)
    with assms have "err \<noteq> None" "tbl w' = tbl w" by auto
    then show ?thesis by simp
  next
    case False
    then have "Put ddb w key val opts =
          (None, (issued (UpdateItemCall (Put_input ddb (clock w) key val opts)) w)
                  \<lparr>tbl := AList.update key (written (clock w) val opts (base_item w key))
                             (tbl w)\<rparr>)"
      by (cases "stored_revision w key")
         (simp_all add: Put_eq nf base_item_revision split: AttributeValue.splits)
    with assms have
      "tbl w' = AList.update key (written (clock w) val opts (base_item w key)) (tbl w)"
      by auto
    with False show ?thesis by simp
  qed
qed

lemma written_advances:
  assumes "(\<forall>s. stored_revision w k \<noteq> Some (AttrS s))
           \<and> tbl w' = AList.update k (written now val opts (base_item w k)) (tbl w)"
  shows "stored_revision w' k = Some (AttrN (revision_of w k + 1))
       \<and> revision_of w' k = revision_of w k + 1
       \<and> revision_of w k \<le> revision_of w' k"
proof -
  from assms have 1: "\<forall>s. stored_revision w k \<noteq> Some (AttrS s)"
    and 2: "tbl w' = AList.update k (written now val opts (base_item w k)) (tbl w)"
    by (rule conjunct1, rule conjunct2)
  from revision_after_write [OF 1 2] show ?thesis by simp
qed

lemma run_write_revision:
  assumes "run_write ddb k w x = (ok, w')"
  shows "(ok \<longrightarrow> stored_revision w' k = Some (AttrN (revision_of w k + 1)))
       \<and> (ok \<longrightarrow> revision_of w' k = revision_of w k + 1)
       \<and> revision_of w k \<le> revision_of w' k"
proof (cases x)
  case (PutOp val opts)
  obtain err w'' where p: "Put ddb w k val opts = (err, w'')"
    by (cases "Put ddb w k val opts")
  from assms have ok: "ok = (err = None)" and w': "w'' = w'"
    by (simp_all add: PutOp p)
  from Put_table [OF p [unfolded w']] show ?thesis
  proof
    assume e: "err \<noteq> None \<and> tbl w' = tbl w"
    then have "revision_of w' k = revision_of w k" by (intro revision_unchanged) simp
    with e ok show ?thesis by auto
  next
    assume "(\<forall>s. stored_revision w k \<noteq> Some (AttrS s))
           \<and> tbl w' = AList.update k (written (clock w) val opts (base_item w k)) (tbl w)"
    from written_advances [OF this] show ?thesis by simp
  qed
next
  case (AtomicPutOp val previous opts)
  obtain a kv err w'' where p: "AtomicPut ddb w k val previous opts = ((a, kv, err), w'')"
    by (metis prod.exhaust)
  from assms have ok: "a = ok" and w': "w'' = w'"
    by (simp_all add: AtomicPutOp p)
  from AtomicPut_table [OF p [unfolded w' ok]] show ?thesis
  proof
    assume e: "\<not> ok \<and> tbl w' = tbl w"
    then have "revision_of w' k = revision_of w k" by (intro revision_unchanged) simp
    with e show ?thesis by simp
  next
    assume "(\<forall>s. stored_revision w k \<noteq> Some (AttrS s))
           \<and> tbl w' = AList.update k (written (clock w) val opts (base_item w k)) (tbl w)"
    from written_advances [OF this] show ?thesis by simp
  qed
qed

lemma revision_of_clock [simp]: "revision_of (w\<lparr>clock := t\<rparr>) k = revision_of w k"
  by (simp add: revision_of_def stored_revision_def)

lemma observed_revisions_above:
  "r \<in> set (observed_revisions ddb k w xs) \<Longrightarrow> revision_of w k < r"
proof (induction xs arbitrary: w)
  case Nil
  then show ?case by simp
next
  case (Cons x xs)
  obtain now y where x: "x = (now, y)" by (cases x)
  obtain ok w' where rw: "run_write ddb k (w\<lparr>clock := now\<rparr>) y = (ok, w')"
    by (metis prod.exhaust)
  note rr = run_write_revision [OF rw]
  from Cons.prems
  have "(ok \<and> r = revision_of w' k) \<or> r \<in> set (observed_revisions ddb k w' xs)"
    by (auto simp add: x rw split: if_splits)
  then show ?case
  proof
    assume "ok \<and> r = revision_of w' k"
    with rr show ?thesis by simp
  next
    assume "r \<in> set (observed_revisions ddb k w' xs)"
    from Cons.IH [OF this] rr show ?thesis by simp
  qed
qed

lemma observed_revisions_sorted:
  "sorted_wrt (<) (observed_revisions ddb k w xs)"
proof (induction xs arbitrary: w)
  case Nil
  then show ?case by simp
next
  case (Cons x xs)
  obtain now y where x: "x = (now, y)" by (cases x)
  obtain ok w' where rw: "run_write ddb k (w\<lparr>clock := now\<rparr>) y = (ok, w')"
    by (metis prod.exhaust)
  have 1: "sorted_wrt (<) (observed_revisions ddb k w' xs)" by (rule Cons.IH)
  have 2: "\<forall>r \<in> set (observed_revisions ddb k w' xs). revision_of w' k < r"
    using observed_revisions_above by blast
  show ?case
    using 1 2 by (simp add: x rw)
qed

text \<open>
  Claim C8. Every \<^verbatim>\<open>Put\<close> and every \<^verbatim>\<open>AtomicPut\<close> that reports success, whatever its
  value (empty or not) and options, leaves the key's stored revision exactly
  one above what it was (counting a key without revision as 0), so 1 on an
  absent key; and the revisions stored after the successful writes of any run
  of writes to the key are strictly increasing.
\<close>

theorem revisions_increase:
  "sorted_wrt (<) (observed_revisions ddb k w xs)
   \<and> (\<forall>ok w'. run_write ddb k w x = (ok, w') \<and> ok \<longrightarrow>
         stored_revision w' k = Some (AttrN (revision_of w k + 1))
         \<and> revision_of w' k = revision_of w k + 1)
   \<and> (\<forall>ok w'. run_write ddb k w x = (ok, w') \<and> ok \<and> map_of (tbl w) k = None \<longrightarrow>
         stored_revision w' k = Some (AttrN 1))"
proof (intro conjI allI impI)
  show "sorted_wrt (<) (observed_revisions ddb k w xs)"
    by (rule observed_revisions_sorted)
next
  fix ok w' assume a: "run_write ddb k w x = (ok, w') \<and> ok"
  then have "run_write ddb k w x = (ok, w')" and ok by simp_all
  from run_write_revision [OF this(1)] \<open>ok\<close>
  show "stored_revision w' k = Some (AttrN (revision_of w k + 1))"
    and "revision_of w' k = revision_of w k + 1"
    by simp_all
next
  fix ok w' assume a: "run_write ddb k w x = (ok, w') \<and> ok \<and> map_of (tbl w) k = None"
  then have r: "run_write ddb k w x = (ok, w')" and ok and "map_of (tbl w) k = None"
    by simp_all
  then have "revision_of w k = 0"
    by (simp add: revision_of_def stored_revision_def)
  with run_write_revision [OF r] \<open>ok\<close> show "stored_revision w' k = Some (AttrN 1)"
    by simp
qed

text \<open>The four writes store the revisions 1, 2 and 3; the fourth is refused.\<close>

lemma four_writes_observed:
  "observed_revisions store0 ''foo'' world0 four_writes = [1, 2, 3]"
  by code_simp

lemma first_write:
  "fst (run_write store0 ''foo'' world0 (PutOp [0x62, 0x61, 0x72] None))"
  "stored_revision (snd (run_write store0 ''foo'' world0 (PutOp [0x62, 0x61, 0x72] None))) ''foo''
     = Some (AttrN 1)"
  by code_simp+

theorem revisions_increase_witness:
  "observed_revisions store0 ''foo'' world0 four_writes = [1, 2, 3]
   \<and> sorted_wrt (<) (observed_revisions store0 ''foo'' world0 four_writes)
   \<and> map_of (tbl world0) ''foo'' = None
   \<and> fst (run_write store0 ''foo'' world0 (PutOp [0x62, 0x61, 0x72] None))
   \<and> stored_revision (snd (run_write store0 ''foo'' world0 (PutOp [0x62, 0x61, 0x72] None)))
        ''foo'' = Some (AttrN 1)"
proof -
  have s: "sorted_wrt (<) (observed_revisions store0 ''foo'' world0 four_writes)"
    using revisions_increase
      [where ddb = store0 and k = "''foo''" and w = world0 and xs = four_writes,
       THEN conjunct1] .
  have n: "map_of (tbl world0) ''foo'' = None" by (simp add: world0_def)
  show ?thesis
    by (intro conjI four_writes_observed s n first_write)
qed

end
